theory Spec2Isabelle
  imports Complex_Main "HOL-Library.Sublist"
begin

section \<open>JavaScript values used by the reconciliation scripts\<close>

text \<open>
  The scripts compute with JavaScript Numbers, which are IEEE-754 binary64 values.
  A Number is modelled by its exact value: \<open>Fin x\<close> is the finite double whose value is the
  real \<open>x\<close> (always a dyadic rational with a 53-bit significand), next to the two infinities
  and NaN. Negative zero is identified with zero: subtraction, addition, \<open>Math.abs\<close>, the
  comparisons and the conversion to a string, the only operations the scripts apply to an
  amount, do not tell them apart.
\<close>

datatype jsnum = NaN | PosInf | NegInf | Fin real

text \<open>\<open>ilog2 n\<close> is the position of the highest set bit of \<open>n\<close>.\<close>

fun ilog2 :: "nat \<Rightarrow> nat" where
  "ilog2 n = (if n < 2 then 0 else Suc (ilog2 (n div 2)))"

declare ilog2.simps [simp del]

definition pow2 :: "int \<Rightarrow> real" where
  "pow2 p = (if 0 \<le> p then 2 ^ nat p else 1 / 2 ^ nat (- p))"

text \<open>For \<open>0 < a\<close>, \<open>log2_floor a\<close> is the integer \<open>e\<close> with \<open>2\<^sup>e \<le> a < 2\<^sup>e\<^sup>+\<^sup>1\<close>.\<close>

definition log2_floor :: "real \<Rightarrow> int" where
  "log2_floor a = (if 1 \<le> a then int (ilog2 (nat \<lfloor>a\<rfloor>))
                   else - int (ilog2 (nat \<lceil>1 / a\<rceil> - 1)) - 1)"

definition round_half_even :: "real \<Rightarrow> int" where
  "round_half_even m = (let f = \<lfloor>m\<rfloor>; r = m - of_int f in
     if r < 1 / 2 then f else if 1 / 2 < r then f + 1
     else if even f then f else f + 1)"

text \<open>
  \<open>number_value q\<close> is the Number value for the real \<open>q\<close> of the language definition:
  \<open>q\<close> rounded to the nearest binary64 value, ties to the even significand, with gradual
  underflow below \<open>2\<^sup>-\<^sup>1\<^sup>0\<^sup>2\<^sup>2\<close> and overflow to an infinity from \<open>2\<^sup>1\<^sup>0\<^sup>2\<^sup>4\<close>. It is what
  \<open>parseFloat\<close> returns for a decimal string denoting \<open>q\<close>, what a numeric literal denotes,
  and the result of every arithmetic operation whose exact result is \<open>q\<close>.
\<close>

definition number_value :: "real \<Rightarrow> jsnum" where
  "number_value q = (if q = 0 then Fin 0 else
     let a = \<bar>q\<bar>;
         e = max (log2_floor a) (- 1022);
         u = pow2 (e - 52);
         v = of_int (round_half_even (a / u)) * u
     in if pow2 1024 \<le> v then (if 0 < q then PosInf else NegInf)
        else Fin (if 0 < q then v else - v))"

text \<open>\<open>x - y\<close>, \<open>x + y\<close>, \<open>Math.abs(x)\<close>, \<open>x > y\<close> and \<open>x <= y\<close> on Numbers.\<close>

fun js_neg :: "jsnum \<Rightarrow> jsnum" where
  "js_neg NaN = NaN"
| "js_neg PosInf = NegInf"
| "js_neg NegInf = PosInf"
| "js_neg (Fin a) = Fin (- a)"

fun js_add :: "jsnum \<Rightarrow> jsnum \<Rightarrow> jsnum" where
  "js_add NaN y = NaN"
| "js_add x NaN = NaN"
| "js_add PosInf NegInf = NaN"
| "js_add NegInf PosInf = NaN"
| "js_add PosInf y = PosInf"
| "js_add NegInf y = NegInf"
| "js_add (Fin a) PosInf = PosInf"
| "js_add (Fin a) NegInf = NegInf"
| "js_add (Fin a) (Fin b) = number_value (a + b)"

definition js_sub :: "jsnum \<Rightarrow> jsnum \<Rightarrow> jsnum" where
  "js_sub x y = js_add x (js_neg y)"

fun js_abs :: "jsnum \<Rightarrow> jsnum" where
  "js_abs NaN = NaN"
| "js_abs PosInf = PosInf"
| "js_abs NegInf = PosInf"
| "js_abs (Fin a) = Fin \<bar>a\<bar>"

fun js_gt :: "jsnum \<Rightarrow> jsnum \<Rightarrow> bool" where
  "js_gt NaN y = False"
| "js_gt x NaN = False"
| "js_gt PosInf PosInf = False"
| "js_gt PosInf y = True"
| "js_gt NegInf y = False"
| "js_gt (Fin a) PosInf = False"
| "js_gt (Fin a) NegInf = True"
| "js_gt (Fin a) (Fin b) = (b < a)"

fun js_le :: "jsnum \<Rightarrow> jsnum \<Rightarrow> bool" where
  "js_le NaN y = False"
| "js_le x NaN = False"
| "js_le x y = (\<not> js_gt x y)"

text \<open>
  A field read from a host record or from a parsed JSON object, where the scripts test its
  type: \<open>undefined\<close>, \<open>null\<close>, a boolean, a string or a Number.
\<close>

datatype jsval = JUndefined | JNull | JBool bool | JStr string | JNum jsnum

text \<open>
  A string field that may be absent: \<open>None\<close> is \<open>undefined\<close> or \<open>null\<close>. \<open>truthy\<close> is the
  test \<open>if (s)\<close>, \<open>or_default s d\<close> is \<open>s || d\<close>.
\<close>

definition truthy :: "string option \<Rightarrow> bool" where
  "truthy s = (case s of None \<Rightarrow> False | Some v \<Rightarrow> v \<noteq> [])"

definition or_default :: "string option \<Rightarrow> string \<Rightarrow> string" where
  "or_default s d = (case s of None \<Rightarrow> d | Some v \<Rightarrow> if v = [] then d else v)"

text \<open>
  Strings the scripts build by concatenation are kept as the list of the concatenated
  pieces, so that the conversion of a Number to a string stays symbolic: \<open>Lit s\<close> is the
  string \<open>s\<close>, \<open>Num x\<close> is \<open>String(x)\<close> for a Number, \<open>NatS n\<close> and \<open>IntS n\<close> the decimal
  digits of a count, of an internal id or of another integer, \<open>Fixed2 x\<close> is \<open>x.toFixed(2)\<close>, \<open>DateTime t\<close> is the host's
  \<open>format.format\<close> of the instant \<open>t\<close>. The string itself is the concatenation of the
  rendered pieces.
\<close>

datatype piece = Lit string | Num jsnum | NatS nat | IntS int | Fixed2 jsnum | DateTime int

type_synonym jstext = "piece list"

section \<open>Constants (windcave\_constants)\<close>

definition SETTLEMENT_STATUS_DONE :: string where
  "SETTLEMENT_STATUS_DONE = ''Done''"

definition CRDR_CREDIT :: string where
  "CRDR_CREDIT = ''CR''"

definition CRDR_DEBIT :: string where
  "CRDR_DEBIT = ''DR''"

definition TRANSACTION_TYPES_REFUND :: string where
  "TRANSACTION_TYPES_REFUND = ''Refund''"

definition ERRORS_CONFIG_NOT_FOUND :: string where
  "ERRORS_CONFIG_NOT_FOUND = ''Windcave configuration record not found''"

definition ERRORS_API_AUTH_FAILED :: string where
  "ERRORS_API_AUTH_FAILED = ''Windcave API authentication failed''"

definition ERRORS_API_REQUEST_FAILED :: string where
  "ERRORS_API_REQUEST_FAILED = ''Windcave API request failed''"

definition ERRORS_NO_MATCHING_PAYMENT :: string where
  "ERRORS_NO_MATCHING_PAYMENT = ''No matching NetSuite payment found''"

definition ERRORS_PAYMENT_ALREADY_DEPOSITED :: string where
  "ERRORS_PAYMENT_ALREADY_DEPOSITED = ''Payment has already been deposited''"

definition ERRORS_AMOUNT_MISMATCH :: string where
  "ERRORS_AMOUNT_MISMATCH = ''Transaction amount does not match payment amount''"

definition MISC_AMOUNT_TOLERANCE :: jsnum where
  "MISC_AMOUNT_TOLERANCE = number_value (1 / 100)"

definition MISC_MAX_API_RETRIES :: nat where
  "MISC_MAX_API_RETRIES = 3"

definition MISC_RETRY_DELAY_MS :: nat where
  "MISC_RETRY_DELAY_MS = 1000"

section \<open>Match validator\<close>

text \<open>
  A transaction of a settlement as the Windcave API returns it. \<open>wc_amount\<close> holds
  \<open>parseFloat(txn.amount)\<close>, the only way the scripts read the amount (NaN when the field
  is missing or not numeric). The fields \<open>method\<close>, \<open>username\<close> and \<open>dateTimeUtc\<close> are only
  copied into the transaction detail record and are left out.
\<close>

record wc_txn =
  wc_id :: "string option"
  wc_merchantReference :: "string option"
  wc_authCode :: "string option"
  wc_amount :: jsnum
  wc_currency :: string
  wc_type :: string

text \<open>The object the entry locator returns for a ledger entry.\<close>

record ns_txn =
  ns_internalId :: nat
  ns_type :: string
  ns_tranId :: string
  ns_amount :: jsnum
  ns_currency :: string
  ns_status :: string
  ns_undepositedFunds :: jsval

record validation =
  isValid :: bool
  error :: "jstext option"

text \<open>
  \<open>validatePaymentForDeposit\<close> of
  \<open>src/FileCabinet/SuiteScripts/Windcave/windcave_reconciliation_lib.js\<close>.
\<close>

definition validatePaymentForDeposit :: "ns_txn option \<Rightarrow> wc_txn \<Rightarrow> validation" where
  "validatePaymentForDeposit nsTransaction windcaveTxn =
     (case nsTransaction of
        None \<Rightarrow> \<lparr>isValid = False, error = Some [Lit ERRORS_NO_MATCHING_PAYMENT]\<rparr>
      | Some ns \<Rightarrow>
          if ns_undepositedFunds ns = JStr ''F''
          then \<lparr>isValid = False, error = Some [Lit ERRORS_PAYMENT_ALREADY_DEPOSITED]\<rparr>
          else
            let windcaveAmount = wc_amount windcaveTxn;
                amountDiff = js_abs (js_sub (ns_amount ns) windcaveAmount)
            in if js_gt amountDiff MISC_AMOUNT_TOLERANCE
               then \<lparr>isValid = False,
                     error = Some [Lit ERRORS_AMOUNT_MISMATCH, Lit '' (NS: '', Num (ns_amount ns),
                                   Lit '', WC: '', Num windcaveAmount, Lit '')'']\<rparr>
               else \<lparr>isValid = True, error = None\<rparr>)"

text \<open>
  \<open>validatePaymentForDeposit\<close> of the root-level copy of the library (the listing that
  follows the installation guide), which adds the search keys and the payment number to
  the first two reasons.
\<close>

definition validatePaymentForDeposit_root :: "ns_txn option \<Rightarrow> wc_txn \<Rightarrow> validation" where
  "validatePaymentForDeposit_root nsTransaction windcaveTxn =
     (case nsTransaction of
        None \<Rightarrow>
          let searchedRef = or_default (wc_merchantReference windcaveTxn) ''none'';
              searchedAuth = or_default (wc_authCode windcaveTxn) ''none'';
              searchedPnref = or_default (wc_id windcaveTxn) ''none''
          in \<lparr>isValid = False,
              error = Some [Lit ERRORS_NO_MATCHING_PAYMENT, Lit '' (searched: docNum='',
                            Lit searchedRef, Lit '', authCode='', Lit searchedAuth,
                            Lit '', pnref='', Lit searchedPnref, Lit '')'']\<rparr>
      | Some ns \<Rightarrow>
          if ns_undepositedFunds ns = JStr ''F''
          then \<lparr>isValid = False,
                error = Some [Lit ERRORS_PAYMENT_ALREADY_DEPOSITED, Lit '' (Payment #'',
                              Lit (ns_tranId ns), Lit '')'']\<rparr>
          else
            let windcaveAmount = wc_amount windcaveTxn;
                amountDiff = js_abs (js_sub (ns_amount ns) windcaveAmount)
            in if js_gt amountDiff MISC_AMOUNT_TOLERANCE
               then \<lparr>isValid = False,
                     error = Some [Lit ERRORS_AMOUNT_MISMATCH, Lit '' (NS: '', Num (ns_amount ns),
                                   Lit '', WC: '', Num windcaveAmount, Lit '')'']\<rparr>
               else \<lparr>isValid = True, error = None\<rparr>)"

text \<open>\<open>amount_mismatch a b\<close> is the test \<open>Math.abs(a - b) > AMOUNT_TOLERANCE\<close>.\<close>

definition amount_mismatch :: "jsnum \<Rightarrow> jsnum \<Rightarrow> bool" where
  "amount_mismatch a b = js_gt (js_abs (js_sub a b)) MISC_AMOUNT_TOLERANCE"

section \<open>String helpers\<close>

text \<open>
  A character of a string is a code unit below 256. \<open>is_space\<close> holds for the white space
  and line terminator characters among them: tab, line feed, vertical tab, form feed,
  carriage return, space and the no-break space U+00A0. \<open>trim\<close> is
  \<open>String.prototype.trim\<close>, \<open>digits_only\<close> is \<open>s.replace(/\D/g, '')\<close>, \<open>blank s\<close> is the test
  \<open>!s || s.trim() === ''\<close>, \<open>toLowerCase\<close> maps the letters A to Z and the capital letters
  U+00C0 to U+00DE (U+00D7, the multiplication sign, is not a letter), and
  \<open>nat_of_digits\<close> reads a string of decimal digits.
\<close>

definition is_space :: "char \<Rightarrow> bool" where
  "is_space c = (let n = (of_char c :: nat) in n = 32 \<or> n = 160 \<or> (9 \<le> n \<and> n \<le> 13))"

definition is_digit :: "char \<Rightarrow> bool" where
  "is_digit c = (let n = (of_char c :: nat) in 48 \<le> n \<and> n \<le> 57)"

definition trim :: "string \<Rightarrow> string" where
  "trim s = rev (dropWhile is_space (rev (dropWhile is_space s)))"

definition digits_only :: "string \<Rightarrow> string" where
  "digits_only s = filter is_digit s"

definition blank :: "string option \<Rightarrow> bool" where
  "blank s = (case s of None \<Rightarrow> True | Some v \<Rightarrow> trim v = [])"

definition toLowerCase :: "string \<Rightarrow> string" where
  "toLowerCase s =
     map (\<lambda>c. let n = (of_char c :: nat) in
            if (65 \<le> n \<and> n \<le> 90) \<or> (192 \<le> n \<and> n \<le> 222 \<and> n \<noteq> 215)
            then char_of (n + 32) else c) s"

definition nat_of_digits :: "string \<Rightarrow> nat" where
  "nat_of_digits s = foldl (\<lambda>n c. 10 * n + ((of_char c :: nat) - 48)) 0 s"

section \<open>The host: ledger and custom records\<close>

text \<open>
  A payment-like transaction of the ledger, with the columns the searches read.
  \<open>le_amount\<close> holds \<open>parseFloat(result.getValue('amount'))\<close>, \<open>le_undepfunds\<close> the raw value
  of the column \<open>undepfunds\<close>, \<open>le_account\<close> the text of the column \<open>account\<close>.
\<close>

record ledger_entry =
  le_internalid :: nat
  le_type :: string
  le_tranid :: string
  le_amount :: jsnum
  le_currency :: string
  le_status :: string
  le_undepfunds :: jsval
  le_account :: string
  le_authcode :: string
  le_pnrefnum :: string

text \<open>An exception: \<open>e.name\<close> and \<open>e.message\<close>.\<close>

record js_error =
  e_name :: string
  e_message :: jstext

definition Error :: "jstext \<Rightarrow> js_error" where
  "Error m = \<lparr>e_name = ''Error'', e_message = m\<rparr>"

definition TypeError :: "jstext \<Rightarrow> js_error" where
  "TypeError m = \<lparr>e_name = ''TypeError'', e_message = m\<rparr>"

text \<open>The settlement record (custom record of the SettlementBatch).\<close>

record settlement_rec =
  sr_internalId :: nat
  sr_settlementId :: string
  sr_settlementDate :: string
  sr_amount :: jsnum
  sr_currency :: string
  sr_status :: string
  sr_crdr :: string
  sr_referenceNumber :: string
  sr_merchantId :: string
  sr_customerId :: string
  sr_matchedCount :: nat
  sr_unmatchedCount :: nat
  sr_matchedAmount :: jsnum
  sr_processed :: bool
  sr_bankDeposit :: "nat option"
  sr_errorMessage :: jstext

text \<open>
  The transaction detail record (custom record of the ExternalTransaction). The constants
  module defines no \<open>BANK_DEPOSIT\<close> among \<open>TXN_DETAIL_FIELDS\<close>, so the property name the scripts
  compute for the deposit reference is \<open>undefined\<close>; \<open>td_undefined\<close> is the value last submitted
  under that name. No script reads it back under another name.
\<close>

record txn_detail =
  td_internalId :: nat
  td_parentSettlement :: nat
  td_transactionId :: "string option"
  td_merchantReference :: string
  td_amount :: jsnum
  td_currency :: string
  td_type :: string
  td_authCode :: string
  td_nsTransaction :: "nat option"
  td_matched :: bool
  td_matchError :: jstext
  td_inDeposit :: bool
  td_undefined :: "nat option"

text \<open>A saved bank deposit: header fields and the payment lines marked for deposit.\<close>

record deposit_rec =
  dep_internalId :: nat
  dep_account :: string
  dep_trandate :: string
  dep_memo :: jstext
  dep_payments :: "nat list"

record email_msg =
  em_recipients :: string
  em_subject :: string
  em_body :: "jstext list"

record config =
  cfg_internalId :: nat
  cfg_isActive :: bool
  cfg_name :: jstext
  cfg_apiUsername :: string
  cfg_apiPassword :: string
  cfg_merchantId :: string
  cfg_customerId :: string
  cfg_environment :: string
  cfg_bankAccount :: string
  cfg_lookbackDays :: nat
  cfg_notificationEmail :: string

text \<open>
  The state of the host account. \<open>undeposited\<close> lists the ids on the payment sublist of a
  new deposit, that is the payments the host currently holds in undeposited funds;
  \<open>search_fault\<close> and \<open>deposit_fault\<close>, when set, make every ledger search and every save of
  a deposit throw; \<open>mail_fault\<close> does the same for \<open>email.send\<close>. \<open>next_id\<close> is the internal
  id the host gives to the next saved record. Calls of \<open>N/log\<close> are not modelled.
\<close>

record world =
  ledger :: "ledger_entry list"
  search_fault :: "js_error option"
  undeposited :: "nat list"
  deposit_fault :: "js_error option"
  mail_fault :: "js_error option"
  configs :: "config list"
  settlements :: "settlement_rec list"
  txn_details :: "txn_detail list"
  deposits :: "deposit_rec list"
  outbox :: "email_msg list"
  next_id :: nat

text \<open>
  \<open>search.create({filters}).run().getRange({start: 0, end: n})\<close> on the ledger: the first
  \<open>n\<close> entries, in store order, that pass the filters.
\<close>

definition ledger_search :: "world \<Rightarrow> (ledger_entry \<Rightarrow> bool) \<Rightarrow> nat \<Rightarrow> js_error + ledger_entry list" where
  "ledger_search w P n =
     (case search_fault w of Some e \<Rightarrow> Inl e | None \<Rightarrow> Inr (take n (filter P (ledger w))))"

section \<open>Entry locator\<close>

text \<open>
  \<open>findNetSuiteTransaction\<close> of the library under \<open>src/FileCabinet\<close>: one search by internal
  id over customer payments and cash sales; the availability flag is the raw column value.
\<close>

definition findNetSuiteTransaction :: "string option \<Rightarrow> world \<Rightarrow> ns_txn option" where
  "findNetSuiteTransaction internalId w =
     (case internalId of
        None \<Rightarrow> None
      | Some s \<Rightarrow>
          if s = [] \<or> trim s = [] then None
          else
            let cleanId = digits_only s in
            if cleanId = [] then None
            else
              (case ledger_search w
                      (\<lambda>e. le_internalid e = nat_of_digits cleanId \<and>
                           (le_type e = ''CustPymt'' \<or> le_type e = ''CashSale'')) 1 of
                 Inl e \<Rightarrow> None
               | Inr [] \<Rightarrow> None
               | Inr (result # _) \<Rightarrow>
                   Some \<lparr>ns_internalId = le_internalid result, ns_type = le_type result,
                         ns_tranId = le_tranid result, ns_amount = le_amount result,
                         ns_currency = le_currency result, ns_status = le_status result,
                         ns_undepositedFunds = le_undepfunds result\<rparr>))"

text \<open>
  The root-level copy: the object built from a search result, with the availability flag
  computed from the account name.
\<close>

definition ns_of_result :: "ledger_entry \<Rightarrow> ns_txn" where
  "ns_of_result result =
     (let accountName = le_account result;
          isUndeposited = sublist ''undeposited'' (toLowerCase accountName)
      in \<lparr>ns_internalId = le_internalid result, ns_type = le_type result,
          ns_tranId = le_tranid result, ns_amount = le_amount result,
          ns_currency = le_currency result, ns_status = le_status result,
          ns_undepositedFunds = (if isUndeposited then JStr ''T'' else JStr ''F'')\<rparr>)"

text \<open>
  \<open>findNetSuiteTransaction\<close> of the root-level copy: customer payments by document number,
  then cash sales; the first row is taken.
\<close>

definition findNetSuiteTransaction_root :: "string option \<Rightarrow> world \<Rightarrow> ns_txn option" where
  "findNetSuiteTransaction_root merchantReference w =
     (case merchantReference of
        None \<Rightarrow> None
      | Some s \<Rightarrow>
          if s = [] \<or> trim s = [] then None
          else
            let cleanRef = digits_only s in
            if cleanRef = [] then None
            else
              (case ledger_search w (\<lambda>e. le_type e = ''CustPymt'' \<and> le_tranid e = cleanRef) 5 of
                 Inl e \<Rightarrow> None
               | Inr (result # _) \<Rightarrow> Some (ns_of_result result)
               | Inr [] \<Rightarrow>
                   (case ledger_search w (\<lambda>e. le_type e = ''CashSale'' \<and> le_tranid e = cleanRef) 5 of
                      Inl e \<Rightarrow> None
                    | Inr [] \<Rightarrow> None
                    | Inr (cashResult # _) \<Rightarrow> Some (ns_of_result cashResult))))"

text \<open>\<open>within_tolerance a b\<close> is the test \<open>Math.abs(a - b) <= tolerance\<close>.\<close>

definition within_tolerance :: "jsnum \<Rightarrow> jsnum \<Rightarrow> bool" where
  "within_tolerance a b = js_le (js_abs (js_sub a b)) MISC_AMOUNT_TOLERANCE"

text \<open>
  The filter of the fallback search: \<open>authcode is authCode\<close> when the auth code is not
  blank, \<open>pnrefnum is transactionId\<close> when the transaction id is not blank, joined by OR.
\<close>

definition authFilters :: "string option \<Rightarrow> string option \<Rightarrow> ledger_entry \<Rightarrow> bool" where
  "authFilters authCode transactionId e =
     ((\<not> blank authCode \<and> Some (le_authcode e) = authCode) \<or>
      (\<not> blank transactionId \<and> Some (le_pnrefnum e) = transactionId))"

text \<open>
  \<open>findNetSuiteTransactionByAuthCode\<close> (root-level copy only). The field \<open>matchMethod\<close> of
  the returned object is read nowhere and is left out.
\<close>

definition findNetSuiteTransactionByAuthCode ::
    "string option \<Rightarrow> jsnum \<Rightarrow> string option \<Rightarrow> world \<Rightarrow> ns_txn option" where
  "findNetSuiteTransactionByAuthCode authCode amount transactionId w =
     (if blank authCode \<and> blank transactionId then None
      else
        (case ledger_search w
                (\<lambda>e. le_type e = ''CustPymt'' \<and> authFilters authCode transactionId e) 10 of
           Inl e \<Rightarrow> None
         | Inr [] \<Rightarrow> None
         | Inr results \<Rightarrow>
             (case find (\<lambda>r. within_tolerance (le_amount r) amount) results of
                Some result \<Rightarrow> Some (ns_of_result result)
              | None \<Rightarrow>
                  (case results of
                     [result] \<Rightarrow> Some (ns_of_result result)
                   | _ \<Rightarrow> None))))"

text \<open>The two strategies as the root-level \<open>matchTransactions\<close> chains them.\<close>

definition locate_root :: "wc_txn \<Rightarrow> world \<Rightarrow> ns_txn option" where
  "locate_root txn w =
     (case findNetSuiteTransaction_root (wc_merchantReference txn) w of
        Some ns \<Rightarrow> Some ns
      | None \<Rightarrow>
          if truthy (wc_authCode txn) \<or> truthy (wc_id txn)
          then findNetSuiteTransactionByAuthCode (wc_authCode txn) (wc_amount txn) (wc_id txn) w
          else None)"

section \<open>Reconciliation engine\<close>

text \<open>The settlement detail the API returns for one settlement id.\<close>

record wc_details =
  d_id :: string
  d_settlementDate :: string
  d_amount :: jsnum
  d_currency :: string
  d_status :: string
  d_CRDR :: string
  d_referenceNumber :: "string option"
  d_merchantId :: string
  d_customerId :: "string option"
  d_transactions :: "wc_txn list"

text \<open>\<open>isSettlementProcessed\<close>: a settlement record with this external id exists.\<close>

definition isSettlementProcessed :: "string \<Rightarrow> world \<Rightarrow> bool" where
  "isSettlementProcessed settlementId w =
     (let results = take 1 (filter (\<lambda>r. sr_settlementId r = settlementId) (settlements w))
      in 0 < length results)"

text \<open>
  \<open>createSettlementRecord\<close>: the saved record carries the id of the settlement data it is
  given. The settlement date is kept as the ISO string instead of the parsed date.
\<close>

definition createSettlementRecord :: "wc_details \<Rightarrow> world \<Rightarrow> nat \<times> world" where
  "createSettlementRecord settlementData w =
     (let internalId = next_id w;
          settlementRecord =
            \<lparr>sr_internalId = internalId,
             sr_settlementId = d_id settlementData,
             sr_settlementDate = d_settlementDate settlementData,
             sr_amount = d_amount settlementData,
             sr_currency = d_currency settlementData,
             sr_status = d_status settlementData,
             sr_crdr = d_CRDR settlementData,
             sr_referenceNumber = or_default (d_referenceNumber settlementData) [],
             sr_merchantId = d_merchantId settlementData,
             sr_customerId = or_default (d_customerId settlementData) [],
             sr_matchedCount = 0, sr_unmatchedCount = 0, sr_matchedAmount = Fin 0,
             sr_processed = False, sr_bankDeposit = None, sr_errorMessage = []\<rparr>
      in (internalId,
          w\<lparr>settlements := settlements w @ [settlementRecord], next_id := Suc internalId\<rparr>))"

definition createTransactionDetailRecord :: "wc_txn \<Rightarrow> nat \<Rightarrow> world \<Rightarrow> nat \<times> world" where
  "createTransactionDetailRecord transactionData settlementInternalId w =
     (let internalId = next_id w;
          txnRecord =
            \<lparr>td_internalId = internalId,
             td_parentSettlement = settlementInternalId,
             td_transactionId = wc_id transactionData,
             td_merchantReference = or_default (wc_merchantReference transactionData) [],
             td_amount = wc_amount transactionData,
             td_currency = wc_currency transactionData,
             td_type = wc_type transactionData,
             td_authCode = or_default (wc_authCode transactionData) [],
             td_nsTransaction = None, td_matched = False, td_matchError = [],
             td_inDeposit = False, td_undefined = None\<rparr>
      in (internalId, w\<lparr>txn_details := txn_details w @ [txnRecord], next_id := Suc internalId\<rparr>))"

text \<open>\<open>record.submitFields\<close> on the transaction detail record with the given id.\<close>

definition submitFields_txn :: "nat \<Rightarrow> (txn_detail \<Rightarrow> txn_detail) \<Rightarrow> world \<Rightarrow> world" where
  "submitFields_txn txnDetailId upd w =
     w\<lparr>txn_details := map (\<lambda>t. if td_internalId t = txnDetailId then upd t else t) (txn_details w)\<rparr>"

definition submitFields_settlement ::
    "nat \<Rightarrow> (settlement_rec \<Rightarrow> settlement_rec) \<Rightarrow> world \<Rightarrow> world" where
  "submitFields_settlement settlementInternalId upd w =
     w\<lparr>settlements :=
         map (\<lambda>r. if sr_internalId r = settlementInternalId then upd r else r) (settlements w)\<rparr>"

record matched_item =
  mi_txnDetailId :: nat
  mi_windcaveTxn :: wc_txn
  mi_nsTransaction :: ns_txn

record unmatched_item =
  ui_txnDetailId :: nat
  ui_windcaveTxn :: wc_txn
  ui_error :: "jstext option"

definition refund_reason :: jstext where
  "refund_reason = [Lit ''Refund transactions require manual handling'']"

text \<open>
  The body of the loop of \<open>matchTransactions\<close>, with the locator and the validator of the
  copy at hand as parameters; \<open>matched\<close> and \<open>unmatched\<close> are the two arrays being filled.
  Reading \<open>nsTransaction.internalId\<close> of a null entry would throw a TypeError.
\<close>

fun matchTransactions_loop ::
    "(wc_txn \<Rightarrow> world \<Rightarrow> ns_txn option) \<Rightarrow> (ns_txn option \<Rightarrow> wc_txn \<Rightarrow> validation) \<Rightarrow>
     wc_txn list \<Rightarrow> nat \<Rightarrow> matched_item list \<Rightarrow> unmatched_item list \<Rightarrow> world \<Rightarrow>
     (js_error + matched_item list \<times> unmatched_item list) \<times> world" where
  "matchTransactions_loop locate validate [] settlementInternalId matched unmatched w =
     (Inr (matched, unmatched), w)"
| "matchTransactions_loop locate validate (txn # rest) settlementInternalId matched unmatched w =
     (let (txnDetailId, w1) = createTransactionDetailRecord txn settlementInternalId w in
      if wc_type txn = TRANSACTION_TYPES_REFUND
      then matchTransactions_loop locate validate rest settlementInternalId matched
             (unmatched @ [\<lparr>ui_txnDetailId = txnDetailId, ui_windcaveTxn = txn,
                             ui_error = Some refund_reason\<rparr>]) w1
      else
        let nsTransaction = locate txn w1;
            validation = validate nsTransaction txn
        in if isValid validation
           then (case nsTransaction of
                   None \<Rightarrow> (Inl (TypeError [Lit ''Cannot read properties of null'']), w1)
                 | Some ns \<Rightarrow>
                     matchTransactions_loop locate validate rest settlementInternalId
                       (matched @ [\<lparr>mi_txnDetailId = txnDetailId, mi_windcaveTxn = txn,
                                     mi_nsTransaction = ns\<rparr>])
                       unmatched
                       (submitFields_txn txnDetailId
                          (\<lambda>t. t\<lparr>td_nsTransaction := Some (ns_internalId ns), td_matched := True\<rparr>)
                          w1))
           else matchTransactions_loop locate validate rest settlementInternalId matched
                  (unmatched @ [\<lparr>ui_txnDetailId = txnDetailId, ui_windcaveTxn = txn,
                                  ui_error = error validation\<rparr>])
                  (submitFields_txn txnDetailId
                     (\<lambda>t. t\<lparr>td_matchError := (case error validation of None \<Rightarrow> [] | Some m \<Rightarrow> m)\<rparr>)
                     w1))"

text \<open>\<open>matchTransactions\<close> of the library under \<open>src/FileCabinet\<close>.\<close>

definition matchTransactions ::
    "wc_txn list \<Rightarrow> nat \<Rightarrow> world \<Rightarrow> (js_error + matched_item list \<times> unmatched_item list) \<times> world" where
  "matchTransactions transactions settlementInternalId w =
     matchTransactions_loop (\<lambda>txn. findNetSuiteTransaction (wc_merchantReference txn))
       validatePaymentForDeposit transactions settlementInternalId [] [] w"

text \<open>\<open>matchTransactions\<close> of the root-level copy.\<close>

definition matchTransactions_root ::
    "wc_txn list \<Rightarrow> nat \<Rightarrow> world \<Rightarrow> (js_error + matched_item list \<times> unmatched_item list) \<times> world" where
  "matchTransactions_root transactions settlementInternalId w =
     matchTransactions_loop locate_root validatePaymentForDeposit_root
       transactions settlementInternalId [] [] w"

section \<open>Deposit grouper\<close>

text \<open>
  The loop over the payment lines of the new deposit: \<open>keys\<close> pairs the ledger id each
  candidate is looked up by with the transaction detail id to record; a line whose id is
  found is marked for deposit. The result is \<open>paymentsAdded\<close>, the transaction detail ids
  added and the lines marked.
\<close>

fun payment_lines_loop ::
    "nat list \<Rightarrow> (nat option \<times> nat) list \<Rightarrow> nat \<Rightarrow> nat list \<Rightarrow> nat list \<Rightarrow> nat \<times> nat list \<times> nat list" where
  "payment_lines_loop [] keys paymentsAdded addedTxnDetailIds marked =
     (paymentsAdded, addedTxnDetailIds, marked)"
| "payment_lines_loop (paymentId # rest) keys paymentsAdded addedTxnDetailIds marked =
     (case find (\<lambda>k. fst k = Some paymentId) keys of
        None \<Rightarrow> payment_lines_loop rest keys paymentsAdded addedTxnDetailIds marked
      | Some k \<Rightarrow>
          payment_lines_loop rest keys (paymentsAdded + 1) (addedTxnDetailIds @ [snd k])
            (marked @ [paymentId]))"

text \<open>\<open>depositRecord.save()\<close>: the host stores the deposit and takes the marked payments
  out of undeposited funds.\<close>

definition save_deposit ::
    "string \<Rightarrow> string \<Rightarrow> jstext \<Rightarrow> nat list \<Rightarrow> world \<Rightarrow> (js_error + nat) \<times> world" where
  "save_deposit account trandate memo marked w =
     (case deposit_fault w of
        Some e \<Rightarrow> (Inl e, w)
      | None \<Rightarrow>
          let depositId = next_id w in
          (Inr depositId,
           w\<lparr>deposits := deposits w @
                 [\<lparr>dep_internalId = depositId, dep_account = account, dep_trandate = trandate,
                   dep_memo = memo, dep_payments = marked\<rparr>],
             undeposited := filter (\<lambda>p. p \<notin> set marked) (undeposited w),
             next_id := Suc depositId\<rparr>))"

text \<open>The loop that links the added transaction detail records to the deposit.\<close>

fun link_deposit_loop :: "nat list \<Rightarrow> nat \<Rightarrow> world \<Rightarrow> world" where
  "link_deposit_loop [] depositId w = w"
| "link_deposit_loop (txnDetailId # rest) depositId w =
     link_deposit_loop rest depositId
       (submitFields_txn txnDetailId
          (\<lambda>t. t\<lparr>td_inDeposit := True, td_undefined := Some depositId\<rparr>) w)"

text \<open>
  \<open>createBankDeposit\<close> of the library under \<open>src/FileCabinet\<close>; the result \<open>None\<close> is
  \<open>null\<close>. An exception of the host is logged and thrown again.
\<close>

definition createBankDeposit ::
    "wc_details \<Rightarrow> matched_item list \<Rightarrow> string \<Rightarrow> world \<Rightarrow> (js_error + nat option) \<times> world" where
  "createBankDeposit settlementData matchedTransactions bankAccountId w =
     (if matchedTransactions = [] then (Inr None, w)
      else
        let memo = [Lit ''Windcave Settlement '',
                    Lit (case d_referenceNumber settlementData of None \<Rightarrow> ''undefined'' | Some r \<Rightarrow> r),
                    Lit '' ('', Lit (d_id settlementData), Lit '')''];
            (paymentsAdded, addedTxnDetailIds, marked) =
              payment_lines_loop (undeposited w)
                (map (\<lambda>m. (Some (ns_internalId (mi_nsTransaction m)), mi_txnDetailId m))
                   matchedTransactions) 0 [] []
        in if paymentsAdded = 0 then (Inr None, w)
           else
             (case save_deposit bankAccountId (d_settlementDate settlementData) memo marked w of
                (Inl e, w1) \<Rightarrow> (Inl e, w1)
              | (Inr depositId, w1) \<Rightarrow>
                  (Inr (Some depositId), link_deposit_loop addedTxnDetailIds depositId w1)))"

text \<open>\<open>getSettlementById\<close>: \<open>None\<close> when the record cannot be loaded.\<close>

definition getSettlementById :: "nat \<Rightarrow> world \<Rightarrow> settlement_rec option" where
  "getSettlementById settlementInternalId w =
     find (\<lambda>r. sr_internalId r = settlementInternalId) (settlements w)"

record pending_txn =
  p_txnDetailId :: nat
  p_transactionId :: "string option"
  p_amount :: jsnum
  p_nsTransactionId :: "nat option"

text \<open>\<open>parseFloat(v) || 0\<close> on a Number.\<close>

definition or_zero :: "jsnum \<Rightarrow> jsnum" where
  "or_zero x = (if x = NaN \<or> x = Fin 0 then Fin 0 else x)"

definition getMatchedNotDepositedTransactions :: "nat \<Rightarrow> world \<Rightarrow> pending_txn list" where
  "getMatchedNotDepositedTransactions settlementInternalId w =
     map (\<lambda>t. \<lparr>p_txnDetailId = td_internalId t, p_transactionId = td_transactionId t,
               p_amount = or_zero (td_amount t), p_nsTransactionId = td_nsTransaction t\<rparr>)
       (filter (\<lambda>t. td_parentSettlement t = settlementInternalId \<and> td_matched t \<and> \<not> td_inDeposit t)
          (txn_details w))"

text \<open>The object \<open>createSupplementaryDeposit\<close> returns.\<close>

datatype supp_result = Success nat nat | Failure jstext

definition createSupplementaryDeposit :: "nat \<Rightarrow> string \<Rightarrow> world \<Rightarrow> supp_result \<times> world" where
  "createSupplementaryDeposit settlementInternalId bankAccountId w =
     (case getSettlementById settlementInternalId w of
        None \<Rightarrow> (Failure [Lit ''Settlement not found''], w)
      | Some settlement \<Rightarrow>
          let pendingTransactions = getMatchedNotDepositedTransactions settlementInternalId w in
          if length pendingTransactions = 0
          then (Failure [Lit ''No matched transactions pending deposit''], w)
          else
            let memo = [Lit ''Windcave Settlement '',
                        Lit (if sr_referenceNumber settlement = [] then sr_settlementId settlement
                             else sr_referenceNumber settlement),
                        Lit '' - Supplementary Deposit''];
                (paymentsAdded, addedTxnDetailIds, marked) =
                  payment_lines_loop (undeposited w)
                    (map (\<lambda>t. (p_nsTransactionId t, p_txnDetailId t)) pendingTransactions) 0 [] []
            in if paymentsAdded = 0
               then (Failure [Lit (''No payments found in undeposited funds. '' @
                                   ''Payments may have already been deposited elsewhere.'')], w)
               else
                 (case save_deposit bankAccountId (sr_settlementDate settlement) memo marked w of
                    (Inl e, w1) \<Rightarrow> (Failure (e_message e), w1)
                  | (Inr depositId, w1) \<Rightarrow>
                      (Success depositId paymentsAdded,
                       link_deposit_loop addedTxnDetailIds depositId w1)))"

section \<open>Settlement source client (windcave\_api\_module)\<close>

text \<open>
  What \<open>https.get\<close> does on one call: a response with its status code and body, or an
  exception. The remote side is the sequence \<open>replies\<close> of the outcomes of the successive
  calls; \<open>json_ok\<close> tells the bodies \<open>JSON.parse\<close> accepts. The trace records every request
  sent and every busy-wait delay, in milliseconds.
\<close>

datatype http_reply = Response nat string | Raised js_error

datatype event = Request | Delay nat

definition requests :: "event list \<Rightarrow> nat" where
  "requests tr = length (filter (\<lambda>ev. ev = Request) tr)"

text \<open>
  \<open>makeRequest\<close>. The value \<open>Inr body\<close> stands for \<open>JSON.parse(body)\<close>. The recursive call
  for a server error is made inside the \<open>try\<close> block, so what it throws reaches the
  \<open>catch\<close> block of the caller; the recursive call of the \<open>catch\<close> block is not.
\<close>

function makeRequest ::
    "(nat \<Rightarrow> http_reply) \<Rightarrow> (string \<Rightarrow> bool) \<Rightarrow> nat \<Rightarrow> event list \<Rightarrow> (js_error + string) \<times> event list" where
  "makeRequest replies json_ok retryCount tr =
     (let tr1 = tr @ [Request];
          tried =
            (case replies (requests tr) of
               Raised e \<Rightarrow> (Inl e, tr1)
             | Response statusCode body \<Rightarrow>
                 if 200 \<le> statusCode \<and> statusCode < 300
                 then (if json_ok body then (Inr body, tr1)
                       else (Inl \<lparr>e_name = ''SyntaxError'', e_message = [Lit ''Unexpected token'']\<rparr>, tr1))
                 else if statusCode = 401 \<or> statusCode = 403
                 then (Inl (Error [Lit ERRORS_API_AUTH_FAILED, Lit '': '', Lit body]), tr1)
                 else if 500 \<le> statusCode \<and> retryCount < MISC_MAX_API_RETRIES
                 then makeRequest replies json_ok (retryCount + 1)
                        (tr1 @ [Delay (MISC_RETRY_DELAY_MS * (retryCount + 1))])
                 else (Inl (Error [Lit ERRORS_API_REQUEST_FAILED, Lit '': HTTP '', NatS statusCode,
                                   Lit '' - '', Lit body]), tr1))
      in case tried of
           (Inr v, tr2) \<Rightarrow> (Inr v, tr2)
         | (Inl e, tr2) \<Rightarrow>
             if e_name e = ''SSS_REQUEST_TIME_EXCEEDED'' \<and> retryCount < MISC_MAX_API_RETRIES
             then makeRequest replies json_ok (retryCount + 1) tr2
             else (Inl e, tr2))"
  by pat_completeness auto
termination
  by (relation "measure (\<lambda>(replies, json_ok, retryCount, tr). Suc MISC_MAX_API_RETRIES - retryCount)")
     auto

section \<open>Batch coordinator (windcave\_settlement\_scheduled)\<close>

text \<open>A settlement as the listing of the API returns it; \<open>st_amount\<close> is
  \<open>parseFloat(settlement.amount)\<close>.\<close>

record wc_settlement =
  st_id :: string
  st_status :: string
  st_amount :: jsnum
  st_currency :: string
  st_CRDR :: string

text \<open>
  What one run of the script meets outside the host records: the two operations of the
  API module (an exception of the HTTP client is \<open>Inl\<close>; \<open>getSettlements\<close> gives
  \<open>response.settlements || []\<close>), the successive readings of
  \<open>getRemainingUsage()\<close>, and the clock at the start and at the end of the run.
\<close>

record run_env =
  getSettlements :: "config \<Rightarrow> js_error + wc_settlement list"
  getSettlementDetails :: "config \<Rightarrow> string \<Rightarrow> js_error + wc_details"
  remainingUsage :: "nat \<Rightarrow> nat"
  clock_start :: int
  clock_end :: int

record config_result =
  cr_configId :: nat
  cr_configName :: jstext
  cr_merchantId :: string
  cr_settlementsFound :: nat
  cr_settlementsProcessed :: nat
  cr_matched :: nat
  cr_unmatched :: nat
  cr_errors :: "jstext list"

record processing_results =
  startTime :: int
  endTime :: "int option"
  configurationsProcessed :: nat
  settlementsFound :: nat
  settlementsProcessed :: nat
  settlementsSkipped :: nat
  totalMatched :: nat
  totalUnmatched :: nat
  totalAmount :: jsnum
  depositsCreated :: nat
  errors :: "jstext list"
  configResults :: "config_result list"

text \<open>The two copies of the reconciliation library the script can be deployed with.\<close>

datatype library = FileCabinet | RootLevel

definition lib_matchTransactions ::
    "library \<Rightarrow> wc_txn list \<Rightarrow> nat \<Rightarrow> world \<Rightarrow>
     (js_error + matched_item list \<times> unmatched_item list) \<times> world" where
  "lib_matchTransactions lib =
     (case lib of FileCabinet \<Rightarrow> matchTransactions | RootLevel \<Rightarrow> matchTransactions_root)"

text \<open>\<open>loadAllConfigurations\<close>: the active configurations, or an exception when there is none.\<close>

definition loadAllConfigurations :: "world \<Rightarrow> js_error + config list" where
  "loadAllConfigurations w =
     (let configurations =
            map (\<lambda>c. c\<lparr>cfg_name := [Lit ''Config #'', NatS (cfg_internalId c), Lit '' ('',
                                      Lit (cfg_merchantId c), Lit '')'']\<rparr>)
              (filter cfg_isActive (configs w))
      in if length configurations = 0 then Inl (Error [Lit ERRORS_CONFIG_NOT_FOUND])
         else Inr configurations)"

definition loadConfiguration :: "world \<Rightarrow> js_error + config" where
  "loadConfiguration w =
     (case loadAllConfigurations w of
        Inl e \<Rightarrow> Inl e
      | Inr [] \<Rightarrow> Inl (TypeError [Lit ''undefined''])
      | Inr (c # _) \<Rightarrow> Inr c)"

definition updateSettlementRecord ::
    "nat \<Rightarrow> nat \<Rightarrow> nat \<Rightarrow> jsnum \<Rightarrow> nat option \<Rightarrow> jstext option \<Rightarrow> world \<Rightarrow> world" where
  "updateSettlementRecord settlementInternalId matchedCount unmatchedCount matchedAmount
       bankDepositId errorMessage w =
     submitFields_settlement settlementInternalId
       (\<lambda>r. r\<lparr>sr_matchedCount := matchedCount,
               sr_unmatchedCount := unmatchedCount,
               sr_matchedAmount := matchedAmount,
               sr_processed := True,
               sr_bankDeposit := (case bankDepositId of
                                    Some d \<Rightarrow> if d \<noteq> 0 then Some d else sr_bankDeposit r
                                  | None \<Rightarrow> sr_bankDeposit r),
               sr_errorMessage := (case errorMessage of
                                     Some m \<Rightarrow> if m \<noteq> [] then m else sr_errorMessage r
                                   | None \<Rightarrow> sr_errorMessage r)\<rparr>) w"

text \<open>\<open>errorDetails.join('\n')\<close> for the lines \<open>'Txn ' + id + ': ' + error\<close>.\<close>

definition NL :: string where
  "NL = [CHR 0x0A]"

fun join_lines :: "jstext list \<Rightarrow> jstext" where
  "join_lines [] = []"
| "join_lines [l] = l"
| "join_lines (l # ls) = l @ [Lit NL] @ join_lines ls"

definition unmatched_line :: "unmatched_item \<Rightarrow> jstext" where
  "unmatched_line u =
     [Lit ''Txn '', Lit (case wc_id (ui_windcaveTxn u) of None \<Rightarrow> ''undefined'' | Some i \<Rightarrow> i),
      Lit '': ''] @ (case ui_error u of None \<Rightarrow> [Lit ''null''] | Some m \<Rightarrow> m)"

text \<open>
  \<open>processSettlement\<close>. The result \<open>Inr None\<close> is the \<open>null\<close> of a skipped settlement,
  \<open>Inr (Some (matched, unmatched))\<close> the counts of a processed one, \<open>Inl e\<close> an exception,
  with the results object and the host state as they are when it is thrown.
\<close>

definition processSettlement ::
    "library \<Rightarrow> run_env \<Rightarrow> wc_settlement \<Rightarrow> config \<Rightarrow> processing_results \<Rightarrow> world \<Rightarrow>
     (js_error + (nat \<times> nat) option) \<times> processing_results \<times> world" where
  "processSettlement lib env settlement config results w =
     (if st_status settlement \<noteq> SETTLEMENT_STATUS_DONE
      then (Inr None, results\<lparr>settlementsSkipped := settlementsSkipped results + 1\<rparr>, w)
      else if isSettlementProcessed (st_id settlement) w
      then (Inr None, results\<lparr>settlementsSkipped := settlementsSkipped results + 1\<rparr>, w)
      else
        (case getSettlementDetails env config (st_id settlement) of
           Inl e \<Rightarrow> (Inl e, results, w)
         | Inr settlementDetails \<Rightarrow>
             let transactions = d_transactions settlementDetails;
                 (settlementInternalId, w1) = createSettlementRecord settlementDetails w
             in
             (case lib_matchTransactions lib transactions settlementInternalId w1 of
                (Inl e, w2) \<Rightarrow> (Inl e, results, w2)
              | (Inr (matched, unmatched), w2) \<Rightarrow>
                  let matchedAmount =
                        foldl (\<lambda>a m. js_add a (wc_amount (mi_windcaveTxn m))) (Fin 0) matched
                  in
                  (case (if st_CRDR settlement = CRDR_CREDIT \<and> 0 < length matched
                         then createBankDeposit settlementDetails matched (cfg_bankAccount config) w2
                         else (Inr None, w2)) of
                     (Inl e, w3) \<Rightarrow> (Inl e, results, w3)
                   | (Inr bankDepositId, w3) \<Rightarrow>
                       let results1 =
                             (case bankDepositId of
                                Some d \<Rightarrow> if d \<noteq> 0
                                          then results\<lparr>depositsCreated := depositsCreated results + 1\<rparr>
                                          else results
                              | None \<Rightarrow> results);
                           errorMessage =
                             (if 0 < length unmatched
                              then Some (Lit (''Unmatched transactions:'' @ NL) #
                                         join_lines (map unmatched_line unmatched))
                              else None);
                           w4 = updateSettlementRecord settlementInternalId (length matched)
                                  (length unmatched) matchedAmount bankDepositId errorMessage w3;
                           results2 =
                             results1\<lparr>settlementsProcessed := settlementsProcessed results1 + 1,
                                      totalMatched := totalMatched results1 + length matched,
                                      totalUnmatched := totalUnmatched results1 + length unmatched,
                                      totalAmount := js_add (totalAmount results1) (st_amount settlement)\<rparr>
                       in (Inr (Some (length matched, length unmatched)), results2, w4)))))"

definition EMAIL_SUBJECT_SUCCESS :: string where
  "EMAIL_SUBJECT_SUCCESS = ''Windcave Settlement Processing Complete''"

definition EMAIL_SUBJECT_ERROR :: string where
  "EMAIL_SUBJECT_ERROR = ''Windcave Settlement Processing - Errors Detected''"

text \<open>The lines of the per-configuration breakdown for one configuration result.\<close>

definition config_breakdown :: "config_result \<Rightarrow> jstext list" where
  "config_breakdown configResult =
     [Lit (NL @ ''['') # cr_configName configResult @
        [Lit ''] (Merchant: '', Lit (cr_merchantId configResult), Lit ('')'' @ NL)],
      [Lit ''  Settlements: '', NatS (cr_settlementsFound configResult), Lit '' found, '',
       NatS (cr_settlementsProcessed configResult), Lit ('' processed'' @ NL)],
      [Lit ''  Matched: '', NatS (cr_matched configResult), Lit '', Unmatched: '',
       NatS (cr_unmatched configResult), Lit NL]] @
     (if 0 < length (cr_errors configResult)
      then [[Lit ''  Errors: '', NatS (length (cr_errors configResult)), Lit NL]]
      else [])"

definition breakdown_header :: jstext where
  "breakdown_header = [Lit (''Results by Configuration:'' @ NL)]"

text \<open>
  The body of the summary email: the list of the strings that \<open>sendNotificationEmail\<close>
  appends to \<open>body\<close>, one element for each \<open>body += ...\<close>, in order.
\<close>

definition email_body :: "processing_results \<Rightarrow> jstext list" where
  "email_body results =
     (let duration = (case endTime results of
                        Some e \<Rightarrow> IntS ((e - startTime results + 500) div 1000)
                      | None \<Rightarrow> Lit ''N/A'')
      in
      [[Lit (''Windcave Settlement Processing Summary'' @ NL)],
       [Lit (''======================================'' @ NL @ NL)],
       [Lit ''Processing Date: '', DateTime (startTime results), Lit NL],
       [Lit ''Duration: '', duration, Lit ('' seconds'' @ NL)],
       [Lit ''Configurations Processed: '', NatS (configurationsProcessed results), Lit (NL @ NL)],
       [Lit (''Overall Results:'' @ NL)],
       [Lit (''----------------'' @ NL)],
       [Lit ''Settlements Found: '', NatS (settlementsFound results), Lit NL],
       [Lit ''Settlements Processed: '', NatS (settlementsProcessed results), Lit NL],
       [Lit ''Settlements Skipped: '', NatS (settlementsSkipped results), Lit NL],
       [Lit ''Bank Deposits Created: '', NatS (depositsCreated results), Lit NL],
       [Lit ''Total Amount: '', Fixed2 (totalAmount results), Lit (NL @ NL)],
       [Lit (''Transaction Matching:'' @ NL)],
       [Lit (''---------------------'' @ NL)],
       [Lit ''Matched: '', NatS (totalMatched results), Lit NL],
       [Lit ''Unmatched: '', NatS (totalUnmatched results), Lit (NL @ NL)]] @
      (if 1 < length (configResults results)
       then [breakdown_header, [Lit (''-------------------------'' @ NL)]] @
            concat (map config_breakdown (configResults results)) @ [[Lit NL]]
       else []) @
      (if 0 < length (errors results)
       then [[Lit (''Errors:'' @ NL)], [Lit (''-------'' @ NL)]] @
            map (\<lambda>err. Lit ''- '' # err @ [Lit NL]) (errors results) @ [[Lit NL]]
       else []) @
      (if 0 < totalUnmatched results
       then [[Lit (''NOTE: There are unmatched transactions that require manual review.'' @ NL)],
             [Lit (''Please check the Windcave Settlement Reconciliation dashboard.'' @ NL @ NL)]]
       else []) @
      [[Lit ''This is an automated message from NetSuite Windcave Settlement Integration.'']])"

text \<open>\<open>sendNotificationEmail\<close>: an exception of \<open>email.send\<close> is caught and logged.\<close>

definition sendNotificationEmail :: "string \<Rightarrow> processing_results \<Rightarrow> world \<Rightarrow> world" where
  "sendNotificationEmail recipientEmail results w =
     (let hasErrors = (0 < length (errors results) \<or> 0 < totalUnmatched results);
          subject = (if hasErrors then EMAIL_SUBJECT_ERROR else EMAIL_SUBJECT_SUCCESS);
          body = email_body results
      in case mail_fault w of
           Some e \<Rightarrow> w
         | None \<Rightarrow> w\<lparr>outbox := outbox w @
                         [\<lparr>em_recipients = recipientEmail, em_subject = subject, em_body = body\<rparr>]\<rparr>)"

text \<open>\<open>Set.prototype.add\<close> on a set kept in insertion order.\<close>

definition set_add :: "'a \<Rightarrow> 'a list \<Rightarrow> 'a list" where
  "set_add x xs = (if x \<in> set xs then xs else xs @ [x])"

definition low_governance :: jstext where
  "low_governance = [Lit ''Processing stopped due to low governance'']"

text \<open>
  The loop of \<open>execute\<close> over the settlements of one configuration. \<open>k\<close> counts the readings
  of the remaining usage taken so far in the run.
\<close>

fun settlements_loop ::
    "library \<Rightarrow> run_env \<Rightarrow> config \<Rightarrow> wc_settlement list \<Rightarrow> nat \<Rightarrow> config_result \<Rightarrow>
     processing_results \<Rightarrow> world \<Rightarrow> nat \<times> config_result \<times> processing_results \<times> world" where
  "settlements_loop lib env config [] k configResult results w = (k, configResult, results, w)"
| "settlements_loop lib env config (settlement # rest) k configResult results w =
     (if remainingUsage env k < 500
      then (Suc k, configResult, results\<lparr>errors := errors results @ [low_governance]\<rparr>, w)
      else
        (case processSettlement lib env settlement config results w of
           (Inr result, results1, w1) \<Rightarrow>
             (case result of
                Some (m, u) \<Rightarrow>
                  settlements_loop lib env config rest (Suc k)
                    (configResult\<lparr>cr_settlementsProcessed := cr_settlementsProcessed configResult + 1,
                                  cr_matched := cr_matched configResult + m,
                                  cr_unmatched := cr_unmatched configResult + u\<rparr>)
                    results1 w1
              | None \<Rightarrow> settlements_loop lib env config rest (Suc k) configResult results1 w1)
         | (Inl settlementError, results1, w1) \<Rightarrow>
             let errorMsg = Lit ''['' # cfg_name config @ [Lit ''] Settlement '', Lit (st_id settlement),
                                                         Lit '': ''] @ e_message settlementError
             in settlements_loop lib env config rest (Suc k)
                  (configResult\<lparr>cr_errors := cr_errors configResult @ [errorMsg]\<rparr>)
                  (results1\<lparr>errors := errors results1 @ [errorMsg]\<rparr>) w1))"

text \<open>
  The loop of \<open>execute\<close> over the configurations; \<open>notificationEmails\<close> is the set of the
  addresses collected so far.
\<close>

fun configurations_loop ::
    "library \<Rightarrow> run_env \<Rightarrow> config list \<Rightarrow> nat \<Rightarrow> string list \<Rightarrow> processing_results \<Rightarrow> world \<Rightarrow>
     string list \<times> processing_results \<times> world" where
  "configurations_loop lib env [] k notificationEmails results w = (notificationEmails, results, w)"
| "configurations_loop lib env (config # rest) k notificationEmails results w =
     (if remainingUsage env k < 1000
      then (notificationEmails, results\<lparr>errors := errors results @ [low_governance]\<rparr>, w)
      else
        let configResult =
              \<lparr>cr_configId = cfg_internalId config, cr_configName = cfg_name config,
               cr_merchantId = cfg_merchantId config, cr_settlementsFound = 0,
               cr_settlementsProcessed = 0, cr_matched = 0, cr_unmatched = 0, cr_errors = []\<rparr>;
            notificationEmails1 =
              (if cfg_notificationEmail config \<noteq> []
               then set_add (cfg_notificationEmail config) notificationEmails
               else notificationEmails)
        in
        (case getSettlements env config of
           Inl configError \<Rightarrow>
             configurations_loop lib env rest (Suc k) notificationEmails1
               (results\<lparr>errors := errors results @
                           [Lit ''Configuration '' # cfg_name config @ [Lit '': ''] @ e_message configError],
                        configResults := configResults results @
                           [configResult\<lparr>cr_errors := [e_message configError]\<rparr>]\<rparr>)
               w
         | Inr settlementList \<Rightarrow>
             let configResult1 = configResult\<lparr>cr_settlementsFound := length settlementList\<rparr>;
                 results1 = results\<lparr>settlementsFound := settlementsFound results + length settlementList\<rparr>;
                 (k2, configResult2, results2, w2) =
                   settlements_loop lib env config settlementList (Suc k) configResult1 results1 w
             in configurations_loop lib env rest k2 notificationEmails1
                  (results2\<lparr>configurationsProcessed := configurationsProcessed results2 + 1,
                            configResults := configResults results2 @ [configResult2]\<rparr>)
                  w2))"

fun send_all :: "string list \<Rightarrow> processing_results \<Rightarrow> world \<Rightarrow> world" where
  "send_all [] results w = w"
| "send_all (emailAddr # rest) results w = send_all rest results (sendNotificationEmail emailAddr results w)"

definition initial_results :: "run_env \<Rightarrow> processing_results" where
  "initial_results env =
     \<lparr>startTime = clock_start env, endTime = None, configurationsProcessed = 0,
      settlementsFound = 0, settlementsProcessed = 0, settlementsSkipped = 0, totalMatched = 0,
      totalUnmatched = 0, totalAmount = Fin 0, depositsCreated = 0, errors = [],
      configResults = []\<rparr>"

text \<open>
  \<open>execute\<close>, one run of the scheduled script: the results object and the host state at
  the end of the run. The outer \<open>catch\<close> block runs when the configurations cannot be
  loaded.
\<close>

definition execute :: "library \<Rightarrow> run_env \<Rightarrow> world \<Rightarrow> processing_results \<times> world" where
  "execute lib env w =
     (let processingResults = initial_results env in
      case loadAllConfigurations w of
        Inr configurations \<Rightarrow>
          let (notificationEmails, results1, w1) =
                configurations_loop lib env configurations 0 [] processingResults w;
              results2 = results1\<lparr>endTime := Some (clock_end env)\<rparr>
          in (results2, send_all notificationEmails results2 w1)
      | Inl e \<Rightarrow>
          let results1 = processingResults\<lparr>errors := errors processingResults @
                                               [Lit ''Fatal error: '' # e_message e]\<rparr>
          in (case loadConfiguration w of
                Inr config \<Rightarrow>
                  if cfg_notificationEmail config \<noteq> []
                  then (results1, sendNotificationEmail (cfg_notificationEmail config) results1 w)
                  else (results1, w)
              | Inl emailError \<Rightarrow> (results1, w)))"

text \<open>Successive runs of the script, each in its own environment.\<close>

fun runs :: "library \<Rightarrow> run_env list \<Rightarrow> world \<Rightarrow> world" where
  "runs lib [] w = w"
| "runs lib (env # envs) w = runs lib envs (snd (execute lib env w))"

section \<open>Notions used in the statements\<close>


text \<open>
  A transaction has a key (an auth code, an id of its own) when the field holds a string
  with at least one character that is not white space.
\<close>

definition present :: "string option \<Rightarrow> bool" where
  "present s =
     (case s of
        None \<Rightarrow> False
      | Some v \<Rightarrow> \<exists>c \<in> set v. (of_char c :: nat) \<notin> {9, 10, 11, 12, 13, 32, 160})"


text \<open>
  The candidates of the fallback lookup, in the words of the specification: the customer
  payments of the ledger whose auth code is the auth code of the transaction or whose
  payment reference is the transaction's own id, in ledger order, capped at 10.
\<close>

definition fallback_candidates :: "wc_txn \<Rightarrow> world \<Rightarrow> ledger_entry list" where
  "fallback_candidates txn w =
     take 10
       (filter (\<lambda>e. le_type e = ''CustPymt'' \<and>
                     ((present (wc_authCode txn) \<and> wc_authCode txn = Some (le_authcode e)) \<or>
                      (present (wc_id txn) \<and> wc_id txn = Some (le_pnrefnum e))))
          (ledger w))"

text \<open>
  The object returned by a lookup describes the ledger entry \<open>e\<close>: it carries the entry's
  internal id, type, document number, amount, currency and status, and the flag \<open>T\<close> or \<open>F\<close>
  according to whether the name of the entry's account contains \<open>undeposited\<close> in any
  letter case.
\<close>

definition describes :: "ns_txn \<Rightarrow> ledger_entry \<Rightarrow> bool" where
  "describes ns e =
     (ns_internalId ns = le_internalid e \<and> ns_type ns = le_type e \<and>
      ns_tranId ns = le_tranid e \<and> ns_amount ns = le_amount e \<and>
      ns_currency ns = le_currency e \<and> ns_status ns = le_status e \<and>
      ns_undepositedFunds ns =
        JStr (if sublist ''undeposited'' (toLowerCase (le_account e)) then ''T'' else ''F''))"

text \<open>
  Amounts are decimal numbers. \<open>reads_as x p\<close>: the Number \<open>x\<close> is what \<open>parseFloat\<close> reads
  from the decimal amount \<open>p\<close>, of magnitude at most \<open>10\<^sup>9\<close>. Two amounts are clearly within
  the tolerance of 0.01 when they differ by at most \<open>0.01 - 10\<^sup>-\<^sup>6\<close>, and clearly beyond it
  when they differ by at least \<open>0.01 + 10\<^sup>-\<^sup>6\<close>; amounts of whole cents are one or the other
  unless they are exactly one cent apart.
\<close>

definition reads_as :: "jsnum \<Rightarrow> real \<Rightarrow> bool" where
  "reads_as x p = (\<bar>p\<bar> \<le> 10 ^ 9 \<and> x = number_value p)"

definition clearly_within_tolerance :: "real \<Rightarrow> real \<Rightarrow> bool" where
  "clearly_within_tolerance p q = (\<bar>p - q\<bar> \<le> 1 / 100 - 1 / 10 ^ 6)"

definition clearly_beyond_tolerance :: "real \<Rightarrow> real \<Rightarrow> bool" where
  "clearly_beyond_tolerance p q = (1 / 100 + 1 / 10 ^ 6 \<le> \<bar>p - q\<bar>)"

definition is_refund :: "wc_txn \<Rightarrow> bool" where
  "is_refund txn = (wc_type txn = TRANSACTION_TYPES_REFUND)"

text \<open>The external ids of the persisted settlement records, in store order.\<close>

definition settlement_ids :: "world \<Rightarrow> string list" where
  "settlement_ids w = map sr_settlementId (settlements w)"

text \<open>How many settlement records are persisted for the external id \<open>E\<close>.\<close>

definition persisted_for :: "string \<Rightarrow> world \<Rightarrow> nat" where
  "persisted_for E w = length (filter (\<lambda>r. sr_settlementId r = E) (settlements w))"

text \<open>
  The settlement source answers a request for the detail of a settlement with data of
  that settlement.
\<close>

definition api_consistent :: "run_env \<Rightarrow> bool" where
  "api_consistent env =
     (\<forall>config settlementId details.
        getSettlementDetails env config settlementId = Inr details \<longrightarrow>
        d_id details = settlementId)"



section \<open>Sample data\<close>

definition example_txn :: wc_txn where
  "example_txn = \<lparr>wc_id = Some ''T1'', wc_merchantReference = Some ''1001'',
                  wc_authCode = Some ''A17'', wc_amount = number_value 100,
                  wc_currency = ''NZD'', wc_type = ''Purchase''\<rparr>"

definition example_entry :: ns_txn where
  "example_entry = \<lparr>ns_internalId = 1001, ns_type = ''CustPymt'', ns_tranId = ''1001'',
                    ns_amount = number_value 100, ns_currency = ''NZD'', ns_status = ''Deposited'',
                    ns_undepositedFunds = JStr ''T''\<rparr>"

definition example_payment :: "nat \<Rightarrow> string \<Rightarrow> real \<Rightarrow> ledger_entry" where
  "example_payment i doc amt =
     \<lparr>le_internalid = i, le_type = ''CustPymt'', le_tranid = doc, le_amount = number_value amt,
      le_currency = ''NZD'', le_status = ''Not Deposited'', le_undepfunds = JStr ''T'',
      le_account = ''Undeposited Funds'', le_authcode = ''A17'', le_pnrefnum = ''P'' @ doc\<rparr>"

definition example_world :: world where
  "example_world =
     \<lparr>ledger = [example_payment 1001 ''1001'' 100, example_payment 1002 ''1002'' 50],
      search_fault = None, undeposited = [1001, 1002], deposit_fault = None, mail_fault = None,
      configs = [], settlements = [], txn_details = [], deposits = [], outbox = [], next_id = 1\<rparr>"

definition example_refund :: wc_txn where
  "example_refund = \<lparr>wc_id = Some ''T2'', wc_merchantReference = Some ''1001'',
                     wc_authCode = Some ''A17'', wc_amount = number_value 20,
                     wc_currency = ''NZD'', wc_type = ''Refund''\<rparr>"

definition example_details :: wc_details where
  "example_details =
     \<lparr>d_id = ''S1'', d_settlementDate = ''2024-01-05'', d_amount = number_value 80,
      d_currency = ''NZD'', d_status = ''Done'', d_CRDR = ''CR'', d_referenceNumber = Some ''R1'',
      d_merchantId = ''M1'', d_customerId = None,
      d_transactions = [example_txn, example_refund]\<rparr>"

definition example_matched :: matched_item where
  "example_matched =
     \<lparr>mi_txnDetailId = 2, mi_windcaveTxn = example_txn, mi_nsTransaction = example_entry\<rparr>"

text \<open>
  A host state after a settlement was processed: settlement record 1 with transaction
  detail record 2, matched to ledger entry 1001 and not yet in a deposit.
\<close>

definition example_processed_world :: world where
  "example_processed_world =
     example_world
       \<lparr>settlements :=
          [\<lparr>sr_internalId = 1, sr_settlementId = ''S1'', sr_settlementDate = ''2024-01-05'',
            sr_amount = number_value 80, sr_currency = ''NZD'', sr_status = ''Done'',
            sr_crdr = ''CR'', sr_referenceNumber = ''R1'', sr_merchantId = ''M1'',
            sr_customerId = [], sr_matchedCount = 1, sr_unmatchedCount = 0,
            sr_matchedAmount = number_value 100, sr_processed = True, sr_bankDeposit = None,
            sr_errorMessage = []\<rparr>],
        txn_details :=
          [\<lparr>td_internalId = 2, td_parentSettlement = 1, td_transactionId = Some ''T1'',
            td_merchantReference = ''1001'', td_amount = number_value 100, td_currency = ''NZD'',
            td_type = ''Purchase'', td_authCode = ''A17'', td_nsTransaction = Some 1001,
            td_matched = True, td_matchError = [], td_inDeposit = False,
            td_undefined = None\<rparr>],
        next_id := 3\<rparr>"

definition request_timeout :: js_error where
  "request_timeout = \<lparr>e_name = ''SSS_REQUEST_TIME_EXCEEDED'', e_message = [Lit ''timed out'']\<rparr>"

text \<open>A server that answers the first request with status 500 and lets every later one time out.\<close>

definition error_then_timeouts :: "nat \<Rightarrow> http_reply" where
  "error_then_timeouts k = (if k = 0 then Response 500 ''busy'' else Raised request_timeout)"

text \<open>
  Two active configurations that share the notification address, and a settlement source
  that lists the settlement S1 of \<open>example_details\<close> for both.
\<close>

definition example_config :: "nat \<Rightarrow> string \<Rightarrow> config" where
  "example_config i merchant =
     \<lparr>cfg_internalId = i, cfg_isActive = True, cfg_name = [], cfg_apiUsername = ''user'',
      cfg_apiPassword = ''secret'', cfg_merchantId = merchant, cfg_customerId = [],
      cfg_environment = ''uat'', cfg_bankAccount = ''acct'', cfg_lookbackDays = 1,
      cfg_notificationEmail = ''ops@x.com''\<rparr>"

definition example_start_world :: world where
  "example_start_world =
     example_world\<lparr>undeposited := [1001], configs := [example_config 11 ''M1'', example_config 12 ''M2'']\<rparr>"

definition example_env :: run_env where
  "example_env =
     \<lparr>getSettlements =
        (\<lambda>config. Inr [\<lparr>st_id = ''S1'', st_status = ''Done'', st_amount = number_value 80,
                        st_currency = ''NZD'', st_CRDR = ''CR''\<rparr>]),
      getSettlementDetails =
        (\<lambda>config settlementId.
           if settlementId = ''S1'' then Inr example_details
           else Inl (Error [Lit ''Settlement not found''])),
      remainingUsage = (\<lambda>k. 10000),
      clock_start = 0,
      clock_end = 2000\<rparr>"



text \<open>
  A single active configuration, and a settlement source that lists the settlements S1
  and S2 and answers every detail request with data that carry the id X and no
  transaction.
\<close>

definition example_single_world :: world where
  "example_single_world = example_world\<lparr>configs := [example_config 11 ''M1'']\<rparr>"

definition example_relabelling_env :: run_env where
  "example_relabelling_env =
     example_env
       \<lparr>getSettlements :=
          (\<lambda>config. Inr [\<lparr>st_id = ''S1'', st_status = ''Done'', st_amount = number_value 80,
                          st_currency = ''NZD'', st_CRDR = ''CR''\<rparr>,
                         \<lparr>st_id = ''S2'', st_status = ''Done'', st_amount = number_value 80,
                          st_currency = ''NZD'', st_CRDR = ''CR''\<rparr>]),
        getSettlementDetails :=
          (\<lambda>config settlementId. Inr (example_details\<lparr>d_id := ''X'', d_transactions := []\<rparr>))\<rparr>"

text \<open>
  A transaction without merchant reference and auth code whose id is the payment
  reference of the ledger entry 1002 alone.
\<close>

definition example_keyed_txn :: wc_txn where
  "example_keyed_txn =
     \<lparr>wc_id = Some ''P1002'', wc_merchantReference = None, wc_authCode = None,
      wc_amount = number_value 50, wc_currency = ''NZD'', wc_type = ''Purchase''\<rparr>"

section \<open>Evaluating Numbers\<close>

lemma ilog2_base: "n < 2 \<Longrightarrow> ilog2 n = 0"
  by (simp add: ilog2.simps)

lemma ilog2_step: "2 \<le> n \<Longrightarrow> ilog2 n = Suc (ilog2 (n div 2))"
  by (subst ilog2.simps) simp

lemmas number_eval =
  number_value_def log2_floor_def pow2_def round_half_even_def ilog2_base ilog2_step Let_def

lemma number_value_0: "number_value 0 = Fin 0"
  by (simp add: number_value_def)

lemma tolerance_value:
  "MISC_AMOUNT_TOLERANCE = Fin (5764607523034235 / 576460752303423488)"
  unfolding MISC_AMOUNT_TOLERANCE_def by (simp add: number_eval)

lemma number_value_100: "number_value 100 = Fin 100"
  by (simp add: number_eval)

lemma number_value_100_01: "number_value (10001 / 100) = Fin (7037578105208177 / 70368744177664)"
  by (simp add: number_eval)

lemma number_value_100_02: "number_value (5001 / 50) = Fin (7038281792649953 / 70368744177664)"
  by (simp add: number_eval)

section \<open>Numbers: rounding to the nearest value\<close>

text \<open>
  The exponent chosen by \<open>log2_floor\<close> brackets its argument, and a finite \<open>number_value q\<close>
  lies within half a unit in the last place of \<open>q\<close>.
\<close>

lemma ilog2_bounds: "0 < n \<Longrightarrow> 2 ^ ilog2 n \<le> n \<and> n < 2 ^ Suc (ilog2 n)"
proof (induction n rule: ilog2.induct)
  case (1 n)
  show ?case
  proof (cases "n < 2")
    case True
    then have "n = 1" using "1.prems" by simp
    then show ?thesis by (simp add: ilog2_base)
  next
    case False
    then have "0 < n div 2" by simp
    then have ih: "2 ^ ilog2 (n div 2) \<le> n div 2 \<and> n div 2 < 2 ^ Suc (ilog2 (n div 2))"
      using "1.IH" False by simp
    have s: "ilog2 n = Suc (ilog2 (n div 2))"
      using False by (simp add: ilog2_step)
    have "2 * 2 ^ ilog2 (n div 2) \<le> n"
      using ih by linarith
    moreover have "n < 2 * 2 ^ Suc (ilog2 (n div 2))"
      using ih by linarith
    ultimately show ?thesis
      using s by simp
  qed
qed

lemma real_pow2_le: "(2::nat) ^ k \<le> n \<Longrightarrow> (2::real) ^ k \<le> real n"
  by (metis of_nat_le_iff of_nat_numeral of_nat_power)

lemma real_le_pow2: "n \<le> (2::nat) ^ k \<Longrightarrow> real n \<le> (2::real) ^ k"
  by (metis of_nat_le_iff of_nat_numeral of_nat_power)

lemma pow2_nat: "pow2 (int k) = 2 ^ k"
  by (simp add: pow2_def)

lemma pow2_neg: "pow2 (- int k) = 1 / 2 ^ k"
  by (simp add: pow2_def)

lemma log2_floor_bounds:
  assumes "0 < a"
  shows "pow2 (log2_floor a) \<le> a \<and> a < pow2 (log2_floor a + 1)"
proof (cases "1 \<le> a")
  case True
  define n where "n = nat \<lfloor>a\<rfloor>"
  define k where "k = ilog2 n"
  have n: "0 < n" using True by (simp add: n_def)
  have b: "2 ^ k \<le> n" "n < 2 ^ Suc k"
    using ilog2_bounds [OF n] by (simp_all add: k_def)
  have l: "real n \<le> a" and u: "a < real n + 1"
    using True unfolding n_def by linarith+
  have 1: "(2::real) ^ k \<le> real n"
    using b(1) by (rule real_pow2_le)
  have "Suc n \<le> 2 ^ Suc k" using b(2) by simp
  then have 2: "real (Suc n) \<le> 2 ^ Suc k"
    by (rule real_le_pow2)
  have lf: "log2_floor a = int k"
    using True by (simp add: log2_floor_def k_def n_def)
  have "pow2 (int k) \<le> a"
    unfolding pow2_nat using 1 l by linarith
  moreover have "a < pow2 (int (Suc k))"
    unfolding pow2_nat using 2 u by simp
  ultimately show ?thesis
    unfolding lf by (simp add: add.commute)
next
  case False
  define m where "m = nat \<lceil>1 / a\<rceil>"
  define k where "k = ilog2 (m - 1)"
  have b1: "1 < 1 / a" using False assms by simp
  then have m2: "2 \<le> m" unfolding m_def by linarith
  then have p: "0 < m - 1" by simp
  have b: "2 ^ k \<le> m - 1" "m - 1 < 2 ^ Suc k"
    using ilog2_bounds [OF p] by (simp_all add: k_def)
  have u: "1 / a \<le> real m" using b1 unfolding m_def by linarith
  have "real m < 1 / a + 1" using b1 unfolding m_def by linarith
  then have l: "real (m - 1) < 1 / a" using m2 by simp
  have "(2::real) ^ k \<le> real (m - 1)"
    using b(1) by (rule real_pow2_le)
  then have lo: "(2::real) ^ k < 1 / a" using l by linarith
  have "m \<le> 2 ^ Suc k" using b(2) by linarith
  then have "real m \<le> 2 ^ Suc k"
    by (rule real_le_pow2)
  then have hi: "1 / a \<le> 2 ^ Suc k" using u by linarith
  have pk: "(0::real) < 2 ^ k" and pk1: "(0::real) < 2 ^ Suc k" by simp_all
  have 1: "a < 1 / 2 ^ k"
    using lo assms pk by (metis less_divide_eq mult.commute)
  have 2: "1 / 2 ^ Suc k \<le> a"
    using hi assms pk1 by (metis divide_le_eq mult.commute)
  have lf: "log2_floor a = - int (Suc k)"
    using False by (simp add: log2_floor_def k_def m_def)
  have "pow2 (- int (Suc k)) \<le> a"
    unfolding pow2_neg using 2 .
  moreover have "a < pow2 (- int k)"
    unfolding pow2_neg using 1 .
  moreover have "- int (Suc k) + 1 = - int k" by simp
  ultimately show ?thesis
    unfolding lf by simp
qed

lemma round_half_even_near: "\<bar>of_int (round_half_even m) - m\<bar> \<le> 1 / 2"
proof -
  define f where "f = \<lfloor>m\<rfloor>"
  have b: "of_int f \<le> m" "m < of_int f + 1"
    unfolding f_def by linarith+
  consider "m - of_int f < 1 / 2" | "1 / 2 < m - of_int f" | "m - of_int f = 1 / 2"
    by linarith
  then show ?thesis
  proof cases
    case 1
    then have "round_half_even m = f"
      by (simp add: round_half_even_def Let_def f_def)
    then show ?thesis using b 1 by simp
  next
    case 2
    then have "round_half_even m = f + 1"
      by (simp add: round_half_even_def Let_def f_def)
    then show ?thesis using b 2 by simp
  next
    case 3
    then have "round_half_even m = f \<or> round_half_even m = f + 1"
      by (simp add: round_half_even_def Let_def f_def)
    then show ?thesis using b 3 by auto
  qed
qed

lemma pow2_pos: "0 < pow2 p"
  by (simp add: pow2_def)

lemma number_value_nearest:
  assumes "q \<noteq> 0"
  defines "u \<equiv> pow2 (max (log2_floor \<bar>q\<bar>) (- 1022) - 52)"
  shows "number_value q = PosInf \<or> number_value q = NegInf \<or>
    (\<exists>v. number_value q = Fin v \<and> \<bar>v - q\<bar> \<le> u / 2)"
proof -
  define k where "k = round_half_even (\<bar>q\<bar> / u)"
  have up: "0 < u" unfolding u_def by (rule pow2_pos)
  have "\<bar>of_int k - \<bar>q\<bar> / u\<bar> \<le> 1 / 2"
    unfolding k_def by (rule round_half_even_near)
  then have "\<bar>of_int k - \<bar>q\<bar> / u\<bar> * u \<le> 1 / 2 * u"
    using up by (intro mult_right_mono) simp_all
  moreover have "\<bar>of_int k - \<bar>q\<bar> / u\<bar> * u = \<bar>(of_int k - \<bar>q\<bar> / u) * u\<bar>"
    using up by (simp add: abs_mult)
  moreover have "(of_int k - \<bar>q\<bar> / u) * u = of_int k * u - \<bar>q\<bar>"
    using up by (simp add: left_diff_distrib)
  ultimately have n: "\<bar>of_int k * u - \<bar>q\<bar>\<bar> \<le> u / 2" by simp
  show ?thesis
  proof (cases "pow2 1024 \<le> of_int k * u")
    case True
    then show ?thesis
      using assms(1) by (simp add: number_value_def Let_def k_def u_def)
  next
    case False
    show ?thesis
    proof (cases "0 < q")
      case True
      then have "number_value q = Fin (of_int k * u)"
        using False by (simp add: number_value_def Let_def k_def u_def)
      moreover have "\<bar>of_int k * u - q\<bar> \<le> u / 2" using n True by simp
      ultimately show ?thesis by blast
    next
      case f: False
      then have "number_value q = Fin (- (of_int k * u))"
        using False assms(1) by (simp add: number_value_def Let_def k_def u_def)
      moreover have "\<bar>q\<bar> = - q" using f by simp
      then have "\<bar>- (of_int k * u) - q\<bar> \<le> u / 2" using n by linarith
      ultimately show ?thesis by blast
    qed
  qed
qed

section \<open>Amounts read from decimal numbers\<close>

text \<open>
  A Number read from a decimal of magnitude up to \<open>2\<^sup>6\<^sup>2\<close> is finite and differs from it by
  at most one part in \<open>2\<^sup>5\<^sup>3\<close>. For amounts up to \<open>10\<^sup>9\<close> the computed \<open>Math.abs(a - b)\<close>
  is therefore within \<open>5 \<times> 10\<^sup>-\<^sup>7\<close> of the difference of the decimals, so that the comparison
  with the tolerance comes out as for the decimals whenever these are not within \<open>10\<^sup>-\<^sup>6\<close>
  of the boundary.
\<close>

lemma pow2_powi: "pow2 p = 2 powi p"
  by (simp add: pow2_def power_int_def inverse_eq_divide power_one_over)

lemma pow2_diff: "pow2 (a - b) = pow2 a / pow2 b"
  by (simp add: pow2_powi power_int_diff)

lemma pow2_52: "pow2 52 = 2 ^ 52"
  by (simp add: pow2_def)

lemma pow2_1024: "pow2 1024 = 2 ^ 1024"
  by (simp add: pow2_def)

lemma ulp_bound:
  assumes "0 < a"
  shows "pow2 (max (log2_floor a) (- 1022) - 52) \<le> a / 2 ^ 52 + 1 / 2 ^ 1074"
proof (cases "- 1022 \<le> log2_floor a")
  case True
  then have "pow2 (max (log2_floor a) (- 1022) - 52) = pow2 (log2_floor a) / 2 ^ 52"
    by (simp add: max_def pow2_diff pow2_52)
  also have "\<dots> \<le> a / 2 ^ 52"
    using log2_floor_bounds [OF assms] by (simp add: divide_right_mono)
  finally show ?thesis
    by (simp add: add_increasing2)
next
  case False
  then have "pow2 (max (log2_floor a) (- 1022) - 52) = pow2 (- 1074)"
    by (simp add: max_def)
  also have "\<dots> = 1 / 2 ^ 1074"
    by (simp add: pow2_def)
  finally show ?thesis
    using assms by simp
qed

lemma number_value_error:
  assumes "\<bar>q\<bar> \<le> 2 ^ 62"
  shows "\<exists>v. number_value q = Fin v \<and> \<bar>v - q\<bar> \<le> \<bar>q\<bar> / 2 ^ 53 + 1 / 2 ^ 1075"
proof (cases "q = 0")
  case True
  then show ?thesis
    by (simp add: number_value_def)
next
  case False
  define u where "u = pow2 (max (log2_floor \<bar>q\<bar>) (- 1022) - 52)"
  define k where "k = round_half_even (\<bar>q\<bar> / u)"
  have up: "0 < u" unfolding u_def by (rule pow2_pos)
  have ub: "u \<le> \<bar>q\<bar> / 2 ^ 52 + 1 / 2 ^ 1074"
    unfolding u_def using False by (intro ulp_bound) simp
  have "\<bar>of_int k - \<bar>q\<bar> / u\<bar> \<le> 1 / 2"
    unfolding k_def by (rule round_half_even_near)
  then have "\<bar>of_int k - \<bar>q\<bar> / u\<bar> * u \<le> 1 / 2 * u"
    using up by (intro mult_right_mono) simp_all
  moreover have "\<bar>of_int k - \<bar>q\<bar> / u\<bar> * u = \<bar>(of_int k - \<bar>q\<bar> / u) * u\<bar>"
    using up by (simp add: abs_mult)
  moreover have "(of_int k - \<bar>q\<bar> / u) * u = of_int k * u - \<bar>q\<bar>"
    using up by (simp add: left_diff_distrib)
  ultimately have n: "\<bar>of_int k * u - \<bar>q\<bar>\<bar> \<le> u / 2" by simp
  have h: "u / 2 \<le> \<bar>q\<bar> / 2 ^ 53 + 1 / 2 ^ 1075"
    using ub by simp
  have e: "\<bar>of_int k * u - \<bar>q\<bar>\<bar> \<le> \<bar>q\<bar> / 2 ^ 53 + 1 / 2 ^ 1075"
    using n h by linarith
  have "\<bar>q\<bar> / 2 ^ 53 \<le> 2 ^ 62 / 2 ^ 53"
    using assms by (intro divide_right_mono) simp_all
  moreover have "(1::real) / 2 ^ 1075 \<le> 1"
    by simp
  ultimately have "of_int k * u \<le> 2 ^ 62 + 2 ^ 62 / 2 ^ 53 + 1"
    using e assms by linarith
  moreover have "(2::real) ^ 62 + 2 ^ 62 / 2 ^ 53 + 1 < 2 ^ 1024"
    by simp
  ultimately have fin: "\<not> pow2 1024 \<le> of_int k * u"
    unfolding pow2_1024 by linarith
  show ?thesis
  proof (cases "0 < q")
    case True
    then have "number_value q = Fin (of_int k * u)"
      using fin by (simp add: number_value_def Let_def k_def u_def)
    moreover have "\<bar>of_int k * u - q\<bar> \<le> \<bar>q\<bar> / 2 ^ 53 + 1 / 2 ^ 1075"
      using e True by simp
    ultimately show ?thesis by blast
  next
    case f: False
    then have "number_value q = Fin (- (of_int k * u))"
      using fin False by (simp add: number_value_def Let_def k_def u_def)
    moreover have "\<bar>q\<bar> = - q" using f by simp
    then have "\<bar>- (of_int k * u) - q\<bar> \<le> \<bar>q\<bar> / 2 ^ 53 + 1 / 2 ^ 1075"
      using e by linarith
    ultimately show ?thesis by blast
  qed
qed

lemma tiny_le: "(1::real) / 2 ^ 1075 \<le> 1 / 10 ^ 9"
  by simp

lemma number_value_amount:
  assumes "\<bar>q\<bar> \<le> 10 ^ 9"
  shows "\<exists>v. number_value q = Fin v \<and> \<bar>v - q\<bar> \<le> 1 / 8000000"
proof -
  have "\<bar>q\<bar> \<le> 2 ^ 62"
    using assms by simp
  then obtain v where v: "number_value q = Fin v"
    and e: "\<bar>v - q\<bar> \<le> \<bar>q\<bar> / 2 ^ 53 + 1 / 2 ^ 1075"
    using number_value_error by blast
  have "\<bar>q\<bar> / 2 ^ 53 \<le> 10 ^ 9 / 2 ^ 53"
    using assms by (intro divide_right_mono) simp_all
  moreover have "(10::real) ^ 9 / 2 ^ 53 + 1 / 10 ^ 9 \<le> 1 / 8000000"
    by simp
  ultimately have "\<bar>v - q\<bar> \<le> 1 / 8000000"
    using e tiny_le by linarith
  then show ?thesis
    using v by blast
qed

lemma amount_difference:
  assumes "\<bar>p\<bar> \<le> 10 ^ 9" and "\<bar>q\<bar> \<le> 10 ^ 9"
  shows "\<exists>d. js_abs (js_sub (number_value p) (number_value q)) = Fin d \<and>
             \<bar>d - \<bar>p - q\<bar>\<bar> \<le> 1 / 2000000"
proof -
  obtain vp where vp: "number_value p = Fin vp" and ep: "\<bar>vp - p\<bar> \<le> 1 / 8000000"
    using number_value_amount [OF assms(1)] by blast
  obtain vq where vq: "number_value q = Fin vq" and eq: "\<bar>vq - q\<bar> \<le> 1 / 8000000"
    using number_value_amount [OF assms(2)] by blast
  define x where "x = vp - vq"
  have xb: "\<bar>x\<bar> \<le> 2 * 10 ^ 9 + 1"
    unfolding x_def using assms ep eq by linarith
  then have "\<bar>x\<bar> \<le> 2 ^ 62"
    by simp
  then obtain d where d: "number_value x = Fin d"
    and e: "\<bar>d - x\<bar> \<le> \<bar>x\<bar> / 2 ^ 53 + 1 / 2 ^ 1075"
    using number_value_error by blast
  have "\<bar>x\<bar> / 2 ^ 53 \<le> (2 * 10 ^ 9 + 1) / 2 ^ 53"
    using xb by (intro divide_right_mono) simp_all
  moreover have "(2 * (10::real) ^ 9 + 1) / 2 ^ 53 + 1 / 10 ^ 9 \<le> 1 / 4000000"
    by simp
  ultimately have ed: "\<bar>d - x\<bar> \<le> 1 / 4000000"
    using e tiny_le by linarith
  have "js_abs (js_sub (number_value p) (number_value q)) = Fin \<bar>d\<bar>"
    by (simp add: vp vq js_sub_def d [unfolded x_def])
  moreover have "\<bar>\<bar>d\<bar> - \<bar>p - q\<bar>\<bar> \<le> 1 / 2000000"
    using ed ep eq unfolding x_def by linarith
  ultimately show ?thesis
    by blast
qed

lemma tolerance_bounds:
  "\<exists>t. MISC_AMOUNT_TOLERANCE = Fin t \<and> 1 / 100 \<le> t \<and> t < 1 / 100 + 1 / 2000000"
  by (rule exI [of _ "5764607523034235 / 576460752303423488"]) (simp add: tolerance_value)

lemma mismatch_clearly_beyond:
  assumes "reads_as x p" and "reads_as y q" and "clearly_beyond_tolerance p q"
  shows "amount_mismatch x y"
proof -
  obtain d where d: "js_abs (js_sub (number_value p) (number_value q)) = Fin d"
    and e: "\<bar>d - \<bar>p - q\<bar>\<bar> \<le> 1 / 2000000"
    using amount_difference [of p q] assms(1,2) by (auto simp add: reads_as_def)
  obtain t where t: "MISC_AMOUNT_TOLERANCE = Fin t" and tb: "t < 1 / 100 + 1 / 2000000"
    using tolerance_bounds by blast
  have "1 / 100 + 1 / 1000000 \<le> \<bar>p - q\<bar>"
    using assms(3) by (simp add: clearly_beyond_tolerance_def)
  then have "t < d"
    using e tb by linarith
  then show ?thesis
    using assms(1,2) by (simp add: amount_mismatch_def reads_as_def d t)
qed

lemma no_mismatch_clearly_within:
  assumes "reads_as x p" and "reads_as y q" and "clearly_within_tolerance p q"
  shows "\<not> amount_mismatch x y"
proof -
  obtain d where d: "js_abs (js_sub (number_value p) (number_value q)) = Fin d"
    and e: "\<bar>d - \<bar>p - q\<bar>\<bar> \<le> 1 / 2000000"
    using amount_difference [of p q] assms(1,2) by (auto simp add: reads_as_def)
  obtain t where t: "MISC_AMOUNT_TOLERANCE = Fin t" and tb: "1 / 100 \<le> t"
    using tolerance_bounds by blast
  have "\<bar>p - q\<bar> \<le> 1 / 100 - 1 / 1000000"
    using assms(3) by (simp add: clearly_within_tolerance_def)
  then have "\<not> t < d"
    using e tb by linarith
  then show ?thesis
    using assms(1,2) by (simp add: amount_mismatch_def reads_as_def d t)
qed

lemma within_tolerance_iff_no_mismatch:
  assumes "reads_as x p" and "reads_as y q"
  shows "within_tolerance x y \<longleftrightarrow> \<not> amount_mismatch x y"
proof -
  obtain d where d: "js_abs (js_sub (number_value p) (number_value q)) = Fin d"
    using amount_difference [of p q] assms by (auto simp add: reads_as_def)
  obtain t where t: "MISC_AMOUNT_TOLERANCE = Fin t"
    using tolerance_bounds by blast
  show ?thesis
    using assms by (simp add: within_tolerance_def amount_mismatch_def reads_as_def d t)
qed

section \<open>Match validator: the rules and their order\<close>

lemmas error_consts =
  ERRORS_NO_MATCHING_PAYMENT_def ERRORS_PAYMENT_ALREADY_DEPOSITED_def ERRORS_AMOUNT_MISMATCH_def


lemma validate_fc_valid_iff:
  "isValid (validatePaymentForDeposit e t) \<longleftrightarrow>
     (\<exists>ns. e = Some ns \<and> ns_undepositedFunds ns \<noteq> JStr ''F'' \<and>
           \<not> amount_mismatch (ns_amount ns) (wc_amount t))"
  by (cases e) (simp_all add: validatePaymentForDeposit_def amount_mismatch_def Let_def)

lemma validate_root_valid_iff:
  "isValid (validatePaymentForDeposit_root e t) \<longleftrightarrow>
     (\<exists>ns. e = Some ns \<and> ns_undepositedFunds ns \<noteq> JStr ''F'' \<and>
           \<not> amount_mismatch (ns_amount ns) (wc_amount t))"
  by (cases e) (simp_all add: validatePaymentForDeposit_root_def amount_mismatch_def Let_def)

lemma diff_100_01: "js_abs (js_sub (number_value (10001 / 100)) (number_value 100)) =
    Fin (703687441777 / 70368744177664)"
  by (simp add: number_value_100_01 number_value_100 js_sub_def) (simp add: number_eval)

lemma mismatch_100_01: "amount_mismatch (number_value (10001 / 100)) (number_value 100)"
  by (simp add: amount_mismatch_def diff_100_01 tolerance_value)

lemma no_mismatch_equal: "\<not> amount_mismatch (number_value 100) (number_value 100)"
  by (simp add: amount_mismatch_def number_value_100 js_sub_def number_value_0 tolerance_value)




lemma boundary_two_cents_one_cent:
  "isValid (validatePaymentForDeposit (Some (example_entry\<lparr>ns_amount := number_value (2 / 100)\<rparr>))
              (example_txn\<lparr>wc_amount := number_value (1 / 100)\<rparr>))"
  by (simp add: validate_fc_valid_iff example_entry_def amount_mismatch_def js_sub_def
        tolerance_value) (simp add: number_eval)

lemma difference_above_tolerance_rejected:
  "\<not> isValid (validatePaymentForDeposit
                 (Some (example_entry\<lparr>ns_amount := number_value (1000101 / 10000)\<rparr>))
                 (example_txn\<lparr>wc_amount := number_value 100\<rparr>))"
  by (simp add: validate_fc_valid_iff example_entry_def amount_mismatch_def js_sub_def
        tolerance_value) (simp add: number_eval)

lemma nan_amount_is_valid:
  "isValid (validatePaymentForDeposit (Some example_entry) (example_txn\<lparr>wc_amount := NaN\<rparr>))"
  by (simp add: validate_fc_valid_iff example_entry_def amount_mismatch_def js_sub_def
        number_value_100)

text \<open>
  C3: the code compares the binary64 result of \<open>Math.abs(a - b)\<close> with the binary64 value
  of 0.01. For a payment of 100.01 and a transaction of 100.00, amounts one cent apart, the
  computed difference is 0.010000000000005116, above the tolerance, and the match is
  rejected as an amount mismatch.
\<close>

theorem C3_one_cent_apart_rejected:
  "validatePaymentForDeposit (Some (example_entry\<lparr>ns_amount := number_value (10001 / 100)\<rparr>))
       (example_txn\<lparr>wc_amount := number_value 100\<rparr>) =
     \<lparr>isValid = False,
      error = Some [Lit ERRORS_AMOUNT_MISMATCH, Lit '' (NS: '', Num (number_value (10001 / 100)),
                    Lit '', WC: '', Num (number_value 100), Lit '')'']\<rparr>"
  using mismatch_100_01
  by (simp add: validatePaymentForDeposit_def amount_mismatch_def example_entry_def Let_def)

text \<open>
  C10: the already-deposited rule rejects exactly when the flag is the string \<open>F\<close>. With
  any other value of the flag (the string \<open>T\<close>, a boolean, the empty string, an absent
  field) the validator gives what it gives for the flag \<open>T\<close>: it goes on to the amount
  comparison, and the entry is valid when the amounts do not differ by more than the
  tolerance.
\<close>

theorem C10_only_the_string_F_rejects:
  "(error (validatePaymentForDeposit (Some ns) txn) = Some [Lit ERRORS_PAYMENT_ALREADY_DEPOSITED]
      \<longleftrightarrow> ns_undepositedFunds ns = JStr ''F'') \<and>
   (ns_undepositedFunds ns \<noteq> JStr ''F'' \<longrightarrow>
      validatePaymentForDeposit (Some ns) txn =
        validatePaymentForDeposit (Some (ns\<lparr>ns_undepositedFunds := JStr ''T''\<rparr>)) txn \<and>
      isValid (validatePaymentForDeposit (Some ns) txn) =
        (\<not> amount_mismatch (ns_amount ns) (wc_amount txn))) \<and>
   (ns_undepositedFunds ns \<in> {JStr ''T'', JBool True, JBool False, JStr [], JUndefined, JNull} \<longrightarrow>
      isValid (validatePaymentForDeposit (Some ns) txn) =
        (\<not> amount_mismatch (ns_amount ns) (wc_amount txn)))"
  by (auto simp add: validatePaymentForDeposit_def amount_mismatch_def Let_def error_consts)

theorem C10_only_the_string_F_rejects_witness:
  "JBool False \<noteq> JStr ''F'' \<and>
   isValid (validatePaymentForDeposit
              (Some (example_entry\<lparr>ns_undepositedFunds := JBool False\<rparr>)) example_txn) \<and>
   isValid (validatePaymentForDeposit
              (Some (example_entry\<lparr>ns_undepositedFunds := JUndefined\<rparr>)) example_txn)"
proof -
  let ?e1 = "example_entry\<lparr>ns_undepositedFunds := JBool False\<rparr>"
  let ?e2 = "example_entry\<lparr>ns_undepositedFunds := JUndefined\<rparr>"
  have f1: "ns_undepositedFunds ?e1 \<noteq> JStr ''F''" and f2: "ns_undepositedFunds ?e2 \<noteq> JStr ''F''"
    by simp_all
  have m1: "\<not> amount_mismatch (ns_amount ?e1) (wc_amount example_txn)"
    and m2: "\<not> amount_mismatch (ns_amount ?e2) (wc_amount example_txn)"
    using no_mismatch_equal by (simp_all add: example_entry_def example_txn_def)
  have "isValid (validatePaymentForDeposit (Some ?e1) example_txn)"
    using C10_only_the_string_F_rejects [of ?e1 example_txn] f1 m1 by blast
  moreover have "isValid (validatePaymentForDeposit (Some ?e2) example_txn)"
    using C10_only_the_string_F_rejects [of ?e2 example_txn] f2 m2 by blast
  ultimately show ?thesis by simp
qed

section \<open>Entry locator: the fallback lookup\<close>

lemma dropWhile_all_iff: "(\<forall>x \<in> set (dropWhile P xs). P x) \<longleftrightarrow> (\<forall>x \<in> set xs. P x)"
proof
  assume a: "\<forall>x \<in> set (dropWhile P xs). P x"
  have "dropWhile P xs = []"
  proof (rule ccontr)
    assume n: "dropWhile P xs \<noteq> []"
    then have "\<not> P (hd (dropWhile P xs))"
      by (rule hd_dropWhile)
    moreover have "hd (dropWhile P xs) \<in> set (dropWhile P xs)"
      using n by simp
    ultimately show False
      using a by blast
  qed
  then show "\<forall>x \<in> set xs. P x"
    by (simp add: dropWhile_eq_Nil_conv)
next
  assume "\<forall>x \<in> set xs. P x"
  then show "\<forall>x \<in> set (dropWhile P xs). P x"
    using set_dropWhileD by fastforce
qed

lemma trim_Nil_iff: "trim s = [] \<longleftrightarrow> (\<forall>c \<in> set s. is_space c)"
  by (simp add: trim_def dropWhile_eq_Nil_conv dropWhile_all_iff)

lemma is_space_codes: "is_space c \<longleftrightarrow> (of_char c :: nat) \<in> {9, 10, 11, 12, 13, 32, 160}"
  unfolding is_space_def Let_def by auto

lemma blank_iff_not_present: "blank s \<longleftrightarrow> \<not> present s"
  by (cases s) (simp_all add: blank_def present_def trim_Nil_iff is_space_codes)

lemma present_truthy: "present s \<Longrightarrow> truthy s"
  by (cases s) (auto simp add: present_def truthy_def)

lemma authFilters_iff:
  "authFilters a i e \<longleftrightarrow>
     (present a \<and> a = Some (le_authcode e)) \<or> (present i \<and> i = Some (le_pnrefnum e))"
  by (auto simp add: authFilters_def blank_iff_not_present)

lemma describes_ns_of_result: "describes (ns_of_result c) c"
  by (simp add: describes_def ns_of_result_def Let_def)

lemma fallback_by_candidates:
  assumes "search_fault w = None" and "present (wc_authCode txn) \<or> present (wc_id txn)"
  shows "findNetSuiteTransactionByAuthCode (wc_authCode txn) (wc_amount txn) (wc_id txn) w =
           (case find (\<lambda>r. within_tolerance (le_amount r) (wc_amount txn))
                   (fallback_candidates txn w) of
              Some c \<Rightarrow> Some (ns_of_result c)
            | None \<Rightarrow> (case fallback_candidates txn w of [c] \<Rightarrow> Some (ns_of_result c) | _ \<Rightarrow> None))"
proof -
  have c: "take 10 (filter (\<lambda>e. le_type e = ''CustPymt'' \<and> authFilters (wc_authCode txn) (wc_id txn) e)
                      (ledger w)) = fallback_candidates txn w"
    by (simp add: fallback_candidates_def authFilters_iff)
  have b: "\<not> (blank (wc_authCode txn) \<and> blank (wc_id txn))"
    using assms(2) by (simp add: blank_iff_not_present)
  show ?thesis
    using assms(1) b
    by (simp add: findNetSuiteTransactionByAuthCode_def ledger_search_def c
          split: list.splits option.splits)
qed

lemma locate_root_by_candidates:
  assumes "findNetSuiteTransaction_root (wc_merchantReference txn) w = None"
    and "search_fault w = None" and "present (wc_authCode txn) \<or> present (wc_id txn)"
  shows "locate_root txn w =
           (case find (\<lambda>r. within_tolerance (le_amount r) (wc_amount txn))
                   (fallback_candidates txn w) of
              Some c \<Rightarrow> Some (ns_of_result c)
            | None \<Rightarrow> (case fallback_candidates txn w of [c] \<Rightarrow> Some (ns_of_result c) | _ \<Rightarrow> None))"
proof -
  have "truthy (wc_authCode txn) \<or> truthy (wc_id txn)"
    using assms(3) present_truthy by blast
  then have "locate_root txn w =
      findNetSuiteTransactionByAuthCode (wc_authCode txn) (wc_amount txn) (wc_id txn) w"
    using assms(1) by (simp add: locate_root_def)
  then show ?thesis
    using fallback_by_candidates [OF assms(2,3)] by simp
qed

lemma find_first: "\<forall>b \<in> set before. \<not> P b \<Longrightarrow> P c \<Longrightarrow> find P (before @ c # after) = Some c"
  by (induction before) auto

lemma within_clearly_within:
  "reads_as x p \<Longrightarrow> reads_as y q \<Longrightarrow> clearly_within_tolerance p q \<Longrightarrow> within_tolerance x y"
  using within_tolerance_iff_no_mismatch no_mismatch_clearly_within by blast

lemma not_within_clearly_beyond:
  "reads_as x p \<Longrightarrow> reads_as y q \<Longrightarrow> clearly_beyond_tolerance p q \<Longrightarrow> \<not> within_tolerance x y"
  using within_tolerance_iff_no_mismatch mismatch_clearly_beyond by blast

lemma locate_root_not_present:
  assumes "findNetSuiteTransaction_root (wc_merchantReference txn) w = None"
    and "\<not> present (wc_authCode txn)" and "\<not> present (wc_id txn)"
  shows "locate_root txn w = None"
  using assms
  by (simp add: locate_root_def findNetSuiteTransactionByAuthCode_def blank_iff_not_present)

lemma locate_root_first_within:
  assumes "findNetSuiteTransaction_root (wc_merchantReference txn) w = None"
    and "search_fault w = None" and "present (wc_authCode txn) \<or> present (wc_id txn)"
    and "fallback_candidates txn w = before @ c # after"
    and "reads_as (wc_amount txn) q"
    and "\<forall>b \<in> set before. reads_as (le_amount b) (dec b) \<and> clearly_beyond_tolerance (dec b) q"
    and "reads_as (le_amount c) (dec c)" and "clearly_within_tolerance (dec c) q"
  shows "\<exists>ns. locate_root txn w = Some ns \<and> describes ns c"
proof -
  have 1: "\<forall>b \<in> set before. \<not> within_tolerance (le_amount b) (wc_amount txn)"
    using assms(5,6) not_within_clearly_beyond by blast
  have 2: "within_tolerance (le_amount c) (wc_amount txn)"
    using assms(5,7,8) within_clearly_within by blast
  have "find (\<lambda>r. within_tolerance (le_amount r) (wc_amount txn)) (fallback_candidates txn w) = Some c"
    unfolding assms(4) using 1 2 by (rule find_first)
  then have "locate_root txn w = Some (ns_of_result c)"
    using locate_root_by_candidates [OF assms(1-3)] by simp
  then show ?thesis
    using describes_ns_of_result by blast
qed

lemma locate_root_none_within:
  assumes "findNetSuiteTransaction_root (wc_merchantReference txn) w = None"
    and "search_fault w = None" and "present (wc_authCode txn) \<or> present (wc_id txn)"
    and "1 < length (fallback_candidates txn w)"
    and "reads_as (wc_amount txn) q"
    and "\<forall>c \<in> set (fallback_candidates txn w).
           reads_as (le_amount c) (dec c) \<and> clearly_beyond_tolerance (dec c) q"
  shows "locate_root txn w = None"
proof -
  have "\<forall>c \<in> set (fallback_candidates txn w). \<not> within_tolerance (le_amount c) (wc_amount txn)"
    using assms(5,6) not_within_clearly_beyond by blast
  then have "find (\<lambda>r. within_tolerance (le_amount r) (wc_amount txn)) (fallback_candidates txn w) = None"
    by (simp add: find_None_iff)
  then show ?thesis
    using locate_root_by_candidates [OF assms(1-3)] assms(4) by (auto split: list.splits)
qed

lemma locate_root_single:
  assumes "findNetSuiteTransaction_root (wc_merchantReference txn) w = None"
    and "search_fault w = None" and "present (wc_authCode txn) \<or> present (wc_id txn)"
    and "fallback_candidates txn w = [c]"
  shows "\<exists>ns. locate_root txn w = Some ns \<and> describes ns c"
proof -
  have "locate_root txn w = Some (ns_of_result c)"
    using locate_root_by_candidates [OF assms(1-3)] assms(4) by (simp split: option.splits)
  then show ?thesis
    using describes_ns_of_result by blast
qed

lemma locate_root_no_candidate:
  assumes "findNetSuiteTransaction_root (wc_merchantReference txn) w = None"
    and "search_fault w = None" and "present (wc_authCode txn) \<or> present (wc_id txn)"
    and "fallback_candidates txn w = []"
  shows "locate_root txn w = None"
  using locate_root_by_candidates [OF assms(1-3)] assms(4) by simp

text \<open>
  C6, as stated, fails on the copy of the library under \<open>src/FileCabinet\<close>, whose
  \<open>matchTransactions\<close> has no fallback lookup: a transaction without merchant reference
  whose id is the payment reference of exactly one customer payment is left unmatched.
\<close>

theorem C6_filecabinet_never_falls_back:
  "fallback_candidates example_keyed_txn example_world = [example_payment 1002 ''1002'' 50] \<and>
   fst (matchTransactions [example_keyed_txn] 1 example_world) =
     Inr ([], [\<lparr>ui_txnDetailId = 1, ui_windcaveTxn = example_keyed_txn,
                 ui_error = Some [Lit ''No matching NetSuite payment found'']\<rparr>])"
  by (simp add: fallback_candidates_def example_keyed_txn_def example_world_def
        example_payment_def present_def matchTransactions_def findNetSuiteTransaction_def
        validatePaymentForDeposit_def createTransactionDetailRecord_def Let_def
        TRANSACTION_TYPES_REFUND_def ERRORS_NO_MATCHING_PAYMENT_def)

text \<open>
  C6 (amended): in the root-level copy of the library the fallback lookup is used only
  when the reference lookup yields nothing and the transaction has an auth code or an id
  of its own; its candidates are the first 10 customer payments whose auth code or
  payment reference is that key; without a candidate the lookup returns null; a single
  candidate is accepted unconditionally; among several candidates the first whose amount
  is within the tolerance of the transaction amount is accepted; when there are several
  and none is within the tolerance the lookup returns null. The accepted candidate is
  returned as the object that describes it. The amounts are decimal amounts up to \<open>10\<^sup>9\<close>
  that are clearly within or clearly beyond the tolerance.
\<close>

theorem C6_auth_code_fallback:
  "(\<forall>ns. findNetSuiteTransaction_root (wc_merchantReference txn) w = Some ns \<longrightarrow>
      locate_root txn w = Some ns) \<and>
   (findNetSuiteTransaction_root (wc_merchantReference txn) w = None \<and>
    \<not> present (wc_authCode txn) \<and> \<not> present (wc_id txn) \<longrightarrow> locate_root txn w = None) \<and>
   (findNetSuiteTransaction_root (wc_merchantReference txn) w = None \<and>
    search_fault w = None \<and> (present (wc_authCode txn) \<or> present (wc_id txn)) \<longrightarrow>
      (fallback_candidates txn w = [] \<longrightarrow> locate_root txn w = None) \<and>
      (\<forall>c. fallback_candidates txn w = [c] \<longrightarrow>
         (\<exists>ns. locate_root txn w = Some ns \<and> describes ns c)) \<and>
      (\<forall>before c after dec q.
         fallback_candidates txn w = before @ c # after \<and>
         reads_as (wc_amount txn) q \<and>
         (\<forall>b \<in> set before. reads_as (le_amount b) (dec b) \<and> clearly_beyond_tolerance (dec b) q) \<and>
         reads_as (le_amount c) (dec c) \<and> clearly_within_tolerance (dec c) q \<longrightarrow>
           (\<exists>ns. locate_root txn w = Some ns \<and> describes ns c)) \<and>
      (\<forall>dec q.
         1 < length (fallback_candidates txn w) \<and>
         reads_as (wc_amount txn) q \<and>
         (\<forall>c \<in> set (fallback_candidates txn w).
            reads_as (le_amount c) (dec c) \<and> clearly_beyond_tolerance (dec c) q) \<longrightarrow>
           locate_root txn w = None))"
proof -
  have 1: "\<forall>ns. findNetSuiteTransaction_root (wc_merchantReference txn) w = Some ns \<longrightarrow>
      locate_root txn w = Some ns"
    by (simp add: locate_root_def)
  have 2: "findNetSuiteTransaction_root (wc_merchantReference txn) w = None \<and>
    \<not> present (wc_authCode txn) \<and> \<not> present (wc_id txn) \<longrightarrow> locate_root txn w = None"
    using locate_root_not_present by blast
  have 3: "findNetSuiteTransaction_root (wc_merchantReference txn) w = None \<and>
    search_fault w = None \<and> (present (wc_authCode txn) \<or> present (wc_id txn)) \<longrightarrow>
      (fallback_candidates txn w = [] \<longrightarrow> locate_root txn w = None)"
    using locate_root_no_candidate by blast
  have 4: "findNetSuiteTransaction_root (wc_merchantReference txn) w = None \<and>
    search_fault w = None \<and> (present (wc_authCode txn) \<or> present (wc_id txn)) \<longrightarrow>
      (\<forall>c. fallback_candidates txn w = [c] \<longrightarrow>
         (\<exists>ns. locate_root txn w = Some ns \<and> describes ns c))"
    using locate_root_single by blast
  have 5: "findNetSuiteTransaction_root (wc_merchantReference txn) w = None \<and>
    search_fault w = None \<and> (present (wc_authCode txn) \<or> present (wc_id txn)) \<longrightarrow>
      (\<forall>before c after dec q.
         fallback_candidates txn w = before @ c # after \<and>
         reads_as (wc_amount txn) q \<and>
         (\<forall>b \<in> set before. reads_as (le_amount b) (dec b) \<and> clearly_beyond_tolerance (dec b) q) \<and>
         reads_as (le_amount c) (dec c) \<and> clearly_within_tolerance (dec c) q \<longrightarrow>
           (\<exists>ns. locate_root txn w = Some ns \<and> describes ns c))"
  proof (intro impI allI)
    fix before c after and dec :: "ledger_entry \<Rightarrow> real" and q
    assume a: "findNetSuiteTransaction_root (wc_merchantReference txn) w = None \<and>
      search_fault w = None \<and> (present (wc_authCode txn) \<or> present (wc_id txn))"
    assume b: "fallback_candidates txn w = before @ c # after \<and>
         reads_as (wc_amount txn) q \<and>
         (\<forall>b \<in> set before. reads_as (le_amount b) (dec b) \<and> clearly_beyond_tolerance (dec b) q) \<and>
         reads_as (le_amount c) (dec c) \<and> clearly_within_tolerance (dec c) q"
    from a have a1: "findNetSuiteTransaction_root (wc_merchantReference txn) w = None"
      and a2: "search_fault w = None"
      and a3: "present (wc_authCode txn) \<or> present (wc_id txn)"
      by simp_all
    from b have b1: "fallback_candidates txn w = before @ c # after"
      and b2: "reads_as (wc_amount txn) q"
      and b3: "\<forall>b \<in> set before. reads_as (le_amount b) (dec b) \<and> clearly_beyond_tolerance (dec b) q"
      and b4: "reads_as (le_amount c) (dec c)" and b5: "clearly_within_tolerance (dec c) q"
      by simp_all
    show "\<exists>ns. locate_root txn w = Some ns \<and> describes ns c"
      by (rule locate_root_first_within [OF a1 a2 a3 b1 b2 b3 b4 b5])
  qed
  have 6: "findNetSuiteTransaction_root (wc_merchantReference txn) w = None \<and>
    search_fault w = None \<and> (present (wc_authCode txn) \<or> present (wc_id txn)) \<longrightarrow>
      (\<forall>dec q.
         1 < length (fallback_candidates txn w) \<and>
         reads_as (wc_amount txn) q \<and>
         (\<forall>c \<in> set (fallback_candidates txn w).
            reads_as (le_amount c) (dec c) \<and> clearly_beyond_tolerance (dec c) q) \<longrightarrow>
           locate_root txn w = None)"
  proof (intro impI allI)
    fix dec :: "ledger_entry \<Rightarrow> real" and q
    assume a: "findNetSuiteTransaction_root (wc_merchantReference txn) w = None \<and>
      search_fault w = None \<and> (present (wc_authCode txn) \<or> present (wc_id txn))"
    assume b: "1 < length (fallback_candidates txn w) \<and>
         reads_as (wc_amount txn) q \<and>
         (\<forall>c \<in> set (fallback_candidates txn w).
            reads_as (le_amount c) (dec c) \<and> clearly_beyond_tolerance (dec c) q)"
    from a have a1: "findNetSuiteTransaction_root (wc_merchantReference txn) w = None"
      and a2: "search_fault w = None"
      and a3: "present (wc_authCode txn) \<or> present (wc_id txn)"
      by simp_all
    from b have b1: "1 < length (fallback_candidates txn w)"
      and b2: "reads_as (wc_amount txn) q"
      and b3: "\<forall>c \<in> set (fallback_candidates txn w).
            reads_as (le_amount c) (dec c) \<and> clearly_beyond_tolerance (dec c) q"
      by simp_all
    show "locate_root txn w = None"
      by (rule locate_root_none_within [OF a1 a2 a3 b1 b2 b3])
  qed
  show ?thesis
    using 1 2 3 4 5 6 by blast
qed

theorem C6_auth_code_fallback_witness:
  "findNetSuiteTransaction_root None example_world = None \<and>
   search_fault example_world = None \<and>
   present (Some ''A17'') \<and>
   fallback_candidates (example_txn\<lparr>wc_merchantReference := None, wc_amount := number_value 50\<rparr>)
     example_world = [example_payment 1001 ''1001'' 100] @ example_payment 1002 ''1002'' 50 # [] \<and>
   clearly_beyond_tolerance 100 50 \<and> clearly_within_tolerance 50 50 \<and>
   (\<exists>ns. locate_root (example_txn\<lparr>wc_merchantReference := None, wc_amount := number_value 50\<rparr>)
            example_world = Some ns \<and>
         describes ns (example_payment 1002 ''1002'' 50))"
proof -
  let ?t = "example_txn\<lparr>wc_merchantReference := None, wc_amount := number_value 50\<rparr>"
  let ?dec = "\<lambda>e. if le_internalid e = 1001 then 100 else (50::real)"
  have p: "present (Some ''A17'')"
    by (simp add: present_def)
  have h1: "findNetSuiteTransaction_root (wc_merchantReference ?t) example_world = None"
    by (simp add: findNetSuiteTransaction_root_def)
  have h2: "search_fault example_world = None"
    by (simp add: example_world_def)
  have h3: "present (wc_authCode ?t) \<or> present (wc_id ?t)"
    using p by (simp add: example_txn_def)
  have h4: "fallback_candidates ?t example_world =
      [example_payment 1001 ''1001'' 100] @ example_payment 1002 ''1002'' 50 # []"
    using p
    by (simp add: fallback_candidates_def example_world_def example_payment_def example_txn_def)
  have h5: "reads_as (wc_amount ?t) 50"
    by (simp add: reads_as_def)
  have b: "clearly_beyond_tolerance 100 50"
    by (simp add: clearly_beyond_tolerance_def)
  have c: "clearly_within_tolerance 50 50"
    by (simp add: clearly_within_tolerance_def)
  have h6: "\<forall>b \<in> set [example_payment 1001 ''1001'' 100].
      reads_as (le_amount b) (?dec b) \<and> clearly_beyond_tolerance (?dec b) 50"
    using b by (simp add: example_payment_def reads_as_def)
  have h7: "reads_as (le_amount (example_payment 1002 ''1002'' 50))
              (?dec (example_payment 1002 ''1002'' 50)) \<and>
            clearly_within_tolerance (?dec (example_payment 1002 ''1002'' 50)) 50"
    using c by (simp add: example_payment_def reads_as_def)
  note fallback = C6_auth_code_fallback [of ?t example_world, THEN conjunct2, THEN conjunct2,
      rule_format, OF conjI [OF h1 conjI [OF h2 h3]]]
  note first_within = fallback [THEN conjunct2, THEN conjunct2, THEN conjunct1, rule_format,
      where before = "[example_payment 1001 ''1001'' 100]" and after = "[]" and dec = ?dec
        and q = 50 and c = "example_payment 1002 ''1002'' 50"]
  have "\<exists>ns. locate_root ?t example_world = Some ns \<and>
          describes ns (example_payment 1002 ''1002'' 50)"
    by (rule first_within) (use h4 h5 h6 h7 in blast)
  then show ?thesis
    using h1 h2 h4 p b c by simp
qed

section \<open>Reconciliation engine: refunds\<close>

lemma loop_refunds:
  "matchTransactions_loop L V txns sid m u w = (Inr (m', u'), w') \<Longrightarrow>
     filter (\<lambda>x. is_refund (mi_windcaveTxn x)) m' = filter (\<lambda>x. is_refund (mi_windcaveTxn x)) m \<and>
     map (\<lambda>x. (ui_windcaveTxn x, ui_error x)) (filter (\<lambda>x. is_refund (ui_windcaveTxn x)) u') =
       map (\<lambda>x. (ui_windcaveTxn x, ui_error x)) (filter (\<lambda>x. is_refund (ui_windcaveTxn x)) u) @
       map (\<lambda>t. (t, Some refund_reason)) (filter is_refund txns)"
proof (induction txns arbitrary: m u w)
  case Nil
  then show ?case by simp
next
  case (Cons txn rest)
  obtain i w1 where c: "createTransactionDetailRecord txn sid w = (i, w1)"
    by (cases "createTransactionDetailRecord txn sid w")
  show ?case
  proof (cases "is_refund txn")
    case True
    then have "matchTransactions_loop L V rest sid m
        (u @ [\<lparr>ui_txnDetailId = i, ui_windcaveTxn = txn, ui_error = Some refund_reason\<rparr>]) w1 =
        (Inr (m', u'), w')"
      using Cons.prems c by (simp add: is_refund_def)
    from Cons.IH [OF this] True show ?thesis by simp
  next
    case False
    show ?thesis
    proof (cases "isValid (V (L txn w1) txn)")
      case valid: True
      show ?thesis
      proof (cases "L txn w1")
        case None
        then show ?thesis
          using Cons.prems c False valid by (simp add: is_refund_def)
      next
        case (Some ns)
        then have "matchTransactions_loop L V rest sid
            (m @ [\<lparr>mi_txnDetailId = i, mi_windcaveTxn = txn, mi_nsTransaction = ns\<rparr>]) u
            (submitFields_txn i (\<lambda>t. t\<lparr>td_nsTransaction := Some (ns_internalId ns), td_matched := True\<rparr>) w1) =
            (Inr (m', u'), w')"
          using Cons.prems c False valid by (simp add: is_refund_def)
        from Cons.IH [OF this] False show ?thesis by simp
      qed
    next
      case invalid: False
      then have "matchTransactions_loop L V rest sid m
          (u @ [\<lparr>ui_txnDetailId = i, ui_windcaveTxn = txn, ui_error = error (V (L txn w1) txn)\<rparr>])
          (submitFields_txn i
             (\<lambda>t. t\<lparr>td_matchError := (case error (V (L txn w1) txn) of None \<Rightarrow> [] | Some m \<Rightarrow> m)\<rparr>) w1) =
          (Inr (m', u'), w')"
        using Cons.prems c False by (simp add: is_refund_def Let_def)
      from Cons.IH [OF this] False show ?thesis by simp
    qed
  qed
qed

lemma loop_cong_nonrefund:
  "(\<And>t. t \<in> set txns \<Longrightarrow> \<not> is_refund t \<Longrightarrow> (\<forall>w. L t w = L' t w) \<and> (\<forall>e. V e t = V' e t)) \<Longrightarrow>
     matchTransactions_loop L V txns sid m u w = matchTransactions_loop L' V' txns sid m u w"
proof (induction txns arbitrary: m u w)
  case Nil
  then show ?case by simp
next
  case (Cons txn rest)
  have ih: "\<And>m u w. matchTransactions_loop L V rest sid m u w =
      matchTransactions_loop L' V' rest sid m u w"
    using Cons.IH Cons.prems by simp
  show ?case
  proof (cases "is_refund txn")
    case True
    then show ?thesis
      by (simp add: is_refund_def ih split: prod.splits)
  next
    case False
    then have "(\<forall>w. L txn w = L' txn w) \<and> (\<forall>e. V e txn = V' e txn)"
      using Cons.prems by simp
    then show ?thesis
      using False by (simp add: is_refund_def ih Let_def split: prod.splits option.splits)
  qed
qed

lemma loop_returns:
  assumes v: "\<forall>e t. isValid (V e t) \<longrightarrow> e \<noteq> None"
  shows "\<exists>r w'. matchTransactions_loop L V txns sid m u w = (Inr r, w')"
proof (induction txns arbitrary: m u w)
  case Nil
  then show ?case by simp
next
  case (Cons txn rest)
  obtain i w1 where c: "createTransactionDetailRecord txn sid w = (i, w1)"
    by (cases "createTransactionDetailRecord txn sid w")
  show ?case
  proof (cases "\<not> is_refund txn \<and> isValid (V (L txn w1) txn)")
    case True
    then obtain ns where "L txn w1 = Some ns"
      using v by fastforce
    then show ?thesis
      using True c Cons.IH by (simp add: is_refund_def Let_def)
  next
    case False
    then show ?thesis
      using c Cons.IH by (auto simp add: is_refund_def Let_def)
  qed
qed

lemma validators_reject_null:
  "\<forall>e t. isValid (validatePaymentForDeposit e t) \<longrightarrow> e \<noteq> None"
  "\<forall>e t. isValid (validatePaymentForDeposit_root e t) \<longrightarrow> e \<noteq> None"
  by (auto simp add: validate_fc_valid_iff validate_root_valid_iff)

lemma lib_matchTransactions_returns:
  "\<exists>matched unmatched w'. lib_matchTransactions lib txns sid w = (Inr (matched, unmatched), w')"
proof -
  have "\<exists>r w'. lib_matchTransactions lib txns sid w = (Inr r, w')"
  proof (cases lib)
    case FileCabinet
    then show ?thesis
      using loop_returns [OF validators_reject_null(1)]
      by (simp add: lib_matchTransactions_def matchTransactions_def)
  next
    case RootLevel
    then show ?thesis
      using loop_returns [OF validators_reject_null(2)]
      by (simp add: lib_matchTransactions_def matchTransactions_root_def)
  qed
  then show ?thesis by auto
qed

text \<open>
  C4: \<open>matchTransactions\<close> returns, and every transaction of its input whose type is
  Refund is in the unmatched list with the fixed reason (in input order, once each) and
  never in the matched list, whatever the ledger holds. Neither the locator nor the
  validator is applied to a refund: replacing them on refunds by any other functions
  \<open>L\<close> and \<open>V\<close> leaves the result and the host state unchanged.
\<close>

theorem C4_refund_exclusion:
  "\<exists>matched unmatched w'.
     matchTransactions txns sid w = (Inr (matched, unmatched), w') \<and>
     (\<forall>m \<in> set matched. \<not> is_refund (mi_windcaveTxn m)) \<and>
     map (\<lambda>u. (ui_windcaveTxn u, ui_error u)) (filter (\<lambda>u. is_refund (ui_windcaveTxn u)) unmatched) =
       map (\<lambda>t. (t, Some refund_reason)) (filter is_refund txns) \<and>
     (\<forall>L V. matchTransactions_loop
               (\<lambda>t w. if is_refund t then L t w else findNetSuiteTransaction (wc_merchantReference t) w)
               (\<lambda>e t. if is_refund t then V e t else validatePaymentForDeposit e t)
               txns sid [] [] w =
             matchTransactions txns sid w)"
proof -
  obtain matched unmatched w' where
    r: "matchTransactions txns sid w = (Inr (matched, unmatched), w')"
    using lib_matchTransactions_returns [of FileCabinet txns sid w]
    by (auto simp add: lib_matchTransactions_def)
  have "filter (\<lambda>x. is_refund (mi_windcaveTxn x)) matched = [] \<and>
     map (\<lambda>x. (ui_windcaveTxn x, ui_error x)) (filter (\<lambda>x. is_refund (ui_windcaveTxn x)) unmatched) =
       map (\<lambda>t. (t, Some refund_reason)) (filter is_refund txns)"
    using loop_refunds [OF r [unfolded matchTransactions_def]] by simp
  moreover have "\<forall>L V. matchTransactions_loop
               (\<lambda>t w. if is_refund t then L t w else findNetSuiteTransaction (wc_merchantReference t) w)
               (\<lambda>e t. if is_refund t then V e t else validatePaymentForDeposit e t)
               txns sid [] [] w =
             matchTransactions txns sid w"
    unfolding matchTransactions_def by (intro allI loop_cong_nonrefund) simp
  ultimately show ?thesis
    using r by (simp add: filter_empty_conv)
qed

lemma example_refunds: "filter is_refund [example_txn, example_refund] = [example_refund]"
  by (simp add: is_refund_def example_txn_def example_refund_def TRANSACTION_TYPES_REFUND_def)

theorem C4_refund_exclusion_witness:
  "\<exists>matched unmatched w'.
     matchTransactions [example_txn, example_refund] 1 example_world =
       (Inr (matched, unmatched), w') \<and>
     example_refund \<notin> mi_windcaveTxn ` set matched \<and>
     map (\<lambda>u. (ui_windcaveTxn u, ui_error u)) (filter (\<lambda>u. is_refund (ui_windcaveTxn u)) unmatched) =
       [(example_refund, Some [Lit ''Refund transactions require manual handling''])]"
proof -
  obtain matched unmatched w' where
    r: "matchTransactions [example_txn, example_refund] 1 example_world =
         (Inr (matched, unmatched), w')"
    and m: "\<forall>m \<in> set matched. \<not> is_refund (mi_windcaveTxn m)"
    and u: "map (\<lambda>u. (ui_windcaveTxn u, ui_error u))
              (filter (\<lambda>u. is_refund (ui_windcaveTxn u)) unmatched) =
            map (\<lambda>t. (t, Some refund_reason)) (filter is_refund [example_txn, example_refund])"
    using C4_refund_exclusion [of "[example_txn, example_refund]" 1 example_world] by blast
  have "is_refund example_refund"
    by (simp add: is_refund_def example_refund_def TRANSACTION_TYPES_REFUND_def)
  then have "example_refund \<notin> mi_windcaveTxn ` set matched"
    using m by auto
  moreover have "map (\<lambda>u. (ui_windcaveTxn u, ui_error u))
              (filter (\<lambda>u. is_refund (ui_windcaveTxn u)) unmatched) =
       [(example_refund, Some [Lit ''Refund transactions require manual handling''])]"
    using u unfolding example_refunds by (simp add: refund_reason_def)
  ultimately have "matchTransactions [example_txn, example_refund] 1 example_world =
       (Inr (matched, unmatched), w') \<and>
     example_refund \<notin> mi_windcaveTxn ` set matched \<and>
     map (\<lambda>u. (ui_windcaveTxn u, ui_error u)) (filter (\<lambda>u. is_refund (ui_windcaveTxn u)) unmatched) =
       [(example_refund, Some [Lit ''Refund transactions require manual handling''])]"
    using r by simp
  then show ?thesis
    by (intro exI)
qed

section \<open>Deposit grouper\<close>

lemma find_SomeD: "find P xs = Some x \<Longrightarrow> x \<in> set xs \<and> P x"
  by (induction xs) (auto split: if_splits)

lemma payment_lines_loop_eq:
  "payment_lines_loop lines keys n added marked =
     (n + length (filter (\<lambda>p. Some p \<in> fst ` set keys) lines),
      added @ map (\<lambda>p. snd (the (find (\<lambda>k. fst k = Some p) keys)))
                (filter (\<lambda>p. Some p \<in> fst ` set keys) lines),
      marked @ filter (\<lambda>p. Some p \<in> fst ` set keys) lines)"
proof (induction lines arbitrary: n added marked)
  case Nil
  then show ?case by simp
next
  case (Cons p rest)
  show ?case
  proof (cases "find (\<lambda>k. fst k = Some p) keys")
    case None
    then have "Some p \<notin> fst ` set keys"
      by (auto simp add: find_None_iff)
    then show ?thesis
      using None Cons.IH by simp
  next
    case (Some k)
    then have "Some p \<in> fst ` set keys"
      using find_SomeD [of "\<lambda>k. fst k = Some p" keys k] by (metis image_eqI)
    then show ?thesis
      using Some Cons.IH by simp
  qed
qed

lemma payment_lines_loop_disjoint:
  assumes "\<forall>p \<in> set lines. Some p \<notin> fst ` set keys"
  shows "payment_lines_loop lines keys 0 [] [] = (0, [], [])"
proof -
  have "filter (\<lambda>p. Some p \<in> fst ` set keys) lines = []"
    using assms by (simp add: filter_empty_conv)
  then show ?thesis
    by (simp add: payment_lines_loop_eq)
qed

lemma link_deposit_loop_others:
  "deposits (link_deposit_loop ids d w) = deposits w \<and>
   settlements (link_deposit_loop ids d w) = settlements w \<and>
   undeposited (link_deposit_loop ids d w) = undeposited w \<and>
   outbox (link_deposit_loop ids d w) = outbox w \<and>
   next_id (link_deposit_loop ids d w) = next_id w"
  by (induction ids arbitrary: w) (simp_all add: submitFields_txn_def)

lemma link_deposit_loop_nil_iff:
  "txn_details (link_deposit_loop ids d w) \<noteq> txn_details w \<Longrightarrow> ids \<noteq> []"
  by (cases ids) auto

text \<open>What \<open>createBankDeposit\<close> does in every case.\<close>

lemma createBankDeposit_cases:
  assumes "createBankDeposit sd matched acct w = (r, w')"
  shows "(w' = w \<and> (r = Inr None \<or> (\<exists>e. r = Inl e))) \<or>
         (\<exists>d dep. r = Inr (Some d) \<and> deposits w' = deposits w @ [dep] \<and>
                  dep_internalId dep = d \<and> dep_payments dep \<noteq> [] \<and>
                  set (dep_payments dep) \<subseteq>
                    set (undeposited w) \<inter> (ns_internalId \<circ> mi_nsTransaction) ` set matched \<and>
                  settlements w' = settlements w \<and> outbox w' = outbox w)"
proof (cases "matched = []")
  case True
  then show ?thesis
    using assms by (simp add: createBankDeposit_def)
next
  case False
  let ?keys = "map (\<lambda>m. (Some (ns_internalId (mi_nsTransaction m)), mi_txnDetailId m)) matched"
  let ?sel = "filter (\<lambda>p. Some p \<in> fst ` set ?keys) (undeposited w)"
  have sub: "set ?sel \<subseteq> set (undeposited w) \<inter> (ns_internalId \<circ> mi_nsTransaction) ` set matched"
    by (auto simp add: image_iff)
  show ?thesis
  proof (cases "?sel = []")
    case True
    then show ?thesis
      using assms False by (simp add: createBankDeposit_def payment_lines_loop_eq)
  next
    case sel: False
    show ?thesis
    proof (cases "deposit_fault w")
      case (Some e)
      then show ?thesis
        using assms False sel
        by (auto simp add: createBankDeposit_def payment_lines_loop_eq save_deposit_def)
    next
      case None
      then show ?thesis
        using assms False sel sub
        by (auto simp add: createBankDeposit_def payment_lines_loop_eq save_deposit_def
              link_deposit_loop_others Let_def)
    qed
  qed
qed

text \<open>
  C5: when no payment currently in undeposited funds is a matched ledger entry,
  \<open>createBankDeposit\<close> returns null and leaves the host state as it is: no deposit is saved
  and no transaction detail record is written. Whenever a transaction detail record is
  changed, a deposit with at least one payment line, each of them a matched entry taken
  from undeposited funds, has been saved and its id is returned.
\<close>

theorem C5_deposit_intersection_safety:
  "(set (undeposited w) \<inter> (ns_internalId \<circ> mi_nsTransaction) ` set matched = {} \<longrightarrow>
      createBankDeposit sd matched acct w = (Inr None, w)) \<and>
   (\<forall>r w'. createBankDeposit sd matched acct w = (r, w') \<and> txn_details w' \<noteq> txn_details w \<longrightarrow>
      (\<exists>d dep. r = Inr (Some d) \<and> deposits w' = deposits w @ [dep] \<and>
               dep_internalId dep = d \<and> dep_payments dep \<noteq> [] \<and>
               set (dep_payments dep) \<subseteq>
                 set (undeposited w) \<inter> (ns_internalId \<circ> mi_nsTransaction) ` set matched))"
proof (intro conjI impI allI)
  assume d: "set (undeposited w) \<inter> (ns_internalId \<circ> mi_nsTransaction) ` set matched = {}"
  obtain r w' where c: "createBankDeposit sd matched acct w = (r, w')"
    by (cases "createBankDeposit sd matched acct w")
  have "\<forall>p \<in> set (undeposited w).
      Some p \<notin> fst ` set (map (\<lambda>m. (Some (ns_internalId (mi_nsTransaction m)), mi_txnDetailId m)) matched)"
    using d by (auto simp add: image_iff)
  then show "createBankDeposit sd matched acct w = (Inr None, w)"
    by (simp add: createBankDeposit_def payment_lines_loop_disjoint)
next
  fix r w'
  assume "createBankDeposit sd matched acct w = (r, w') \<and> txn_details w' \<noteq> txn_details w"
  then show "\<exists>d dep. r = Inr (Some d) \<and> deposits w' = deposits w @ [dep] \<and>
               dep_internalId dep = d \<and> dep_payments dep \<noteq> [] \<and>
               set (dep_payments dep) \<subseteq>
                 set (undeposited w) \<inter> (ns_internalId \<circ> mi_nsTransaction) ` set matched"
    using createBankDeposit_cases [of sd matched acct w r w'] by auto
qed

theorem C5_deposit_intersection_safety_witness:
  "set (undeposited (example_world\<lparr>undeposited := [2001]\<rparr>)) \<inter>
     (ns_internalId \<circ> mi_nsTransaction) ` set [example_matched] = {} \<and>
   createBankDeposit example_details [example_matched] ''acct''
       (example_world\<lparr>undeposited := [2001]\<rparr>) =
     (Inr None, example_world\<lparr>undeposited := [2001]\<rparr>)"
proof -
  have d: "set (undeposited (example_world\<lparr>undeposited := [2001]\<rparr>)) \<inter>
     (ns_internalId \<circ> mi_nsTransaction) ` set [example_matched] = {}"
    by (simp add: example_matched_def example_entry_def)
  then show ?thesis
    using C5_deposit_intersection_safety
            [of "example_world\<lparr>undeposited := [2001]\<rparr>" "[example_matched]" example_details "''acct''"]
    by blast
qed

lemma createSupplementaryDeposit_cases:
  assumes "createSupplementaryDeposit sid acct w = (r, w')"
  shows "(w' = w \<and> (\<exists>m. r = Failure m)) \<or>
         (\<exists>d n dep. r = Success d n \<and> 0 < n \<and> deposits w' = deposits w @ [dep] \<and>
                    dep_internalId dep = d \<and> length (dep_payments dep) = n \<and>
                    set (dep_payments dep) \<subseteq> set (undeposited w))"
proof (cases "getSettlementById sid w")
  case None
  then show ?thesis
    using assms by (auto simp add: createSupplementaryDeposit_def)
next
  case (Some settlement)
  let ?pending = "getMatchedNotDepositedTransactions sid w"
  let ?keys = "map (\<lambda>t. (p_nsTransactionId t, p_txnDetailId t)) ?pending"
  let ?sel = "filter (\<lambda>p. Some p \<in> fst ` set ?keys) (undeposited w)"
  note s = \<open>getSettlementById sid w = Some settlement\<close>
  show ?thesis
  proof (cases "?pending = []")
    case True
    then show ?thesis
      using assms s by (auto simp add: createSupplementaryDeposit_def)
  next
    case pending: False
    show ?thesis
    proof (cases "?sel = []")
      case True
      then show ?thesis
        using assms s pending
        by (auto simp add: createSupplementaryDeposit_def payment_lines_loop_eq Let_def)
    next
      case sel: False
      show ?thesis
      proof (cases "deposit_fault w")
        case (Some e)
        then show ?thesis
          using assms s pending sel
          by (auto simp add: createSupplementaryDeposit_def payment_lines_loop_eq save_deposit_def
                Let_def)
      next
        case None
        then show ?thesis
          using assms s pending sel
          by (auto simp add: createSupplementaryDeposit_def payment_lines_loop_eq save_deposit_def
                link_deposit_loop_others Let_def)
      qed
    qed
  qed
qed

text \<open>
  C7: \<open>createSupplementaryDeposit\<close> always returns a result object. For an existing
  settlement with no transaction detail record that is matched and not in a deposit, the
  result is the failure \<open>No matched transactions pending deposit\<close>; when there are such
  records but none of their ledger entries is in undeposited funds, it is the failure
  saying that the payments may have been deposited elsewhere. In every failure, these
  two included, the host state is unchanged: no deposit is saved and no transaction
  detail record is written.
\<close>

theorem C7_supplementary_failures:
  "(\<forall>settlement.
      getSettlementById sid w = Some settlement \<and>
      (\<forall>t \<in> set (txn_details w).
         td_parentSettlement t = sid \<longrightarrow> \<not> (td_matched t \<and> \<not> td_inDeposit t)) \<longrightarrow>
      createSupplementaryDeposit sid acct w =
        (Failure [Lit ''No matched transactions pending deposit''], w)) \<and>
   (\<forall>settlement.
      getSettlementById sid w = Some settlement \<and>
      getMatchedNotDepositedTransactions sid w \<noteq> [] \<and>
      (\<forall>t \<in> set (getMatchedNotDepositedTransactions sid w).
         \<forall>p \<in> set (undeposited w). p_nsTransactionId t \<noteq> Some p) \<longrightarrow>
      createSupplementaryDeposit sid acct w =
        (Failure [Lit (''No payments found in undeposited funds. '' @
                       ''Payments may have already been deposited elsewhere.'')], w)) \<and>
   (\<forall>m w'. createSupplementaryDeposit sid acct w = (Failure m, w') \<longrightarrow> w' = w) \<and>
   (\<exists>r w'. createSupplementaryDeposit sid acct w = (r, w') \<and>
            ((\<exists>m. r = Failure m) \<or> (\<exists>d n. r = Success d n \<and> 0 < n)))"
proof (intro conjI allI impI)
  fix settlement
  assume a: "getSettlementById sid w = Some settlement \<and>
      (\<forall>t \<in> set (txn_details w).
         td_parentSettlement t = sid \<longrightarrow> \<not> (td_matched t \<and> \<not> td_inDeposit t))"
  then have "getMatchedNotDepositedTransactions sid w = []"
    by (auto simp add: getMatchedNotDepositedTransactions_def filter_empty_conv)
  then show "createSupplementaryDeposit sid acct w =
        (Failure [Lit ''No matched transactions pending deposit''], w)"
    using a by (simp add: createSupplementaryDeposit_def)
next
  fix settlement
  assume a: "getSettlementById sid w = Some settlement \<and>
      getMatchedNotDepositedTransactions sid w \<noteq> [] \<and>
      (\<forall>t \<in> set (getMatchedNotDepositedTransactions sid w).
         \<forall>p \<in> set (undeposited w). p_nsTransactionId t \<noteq> Some p)"
  then have "\<forall>p \<in> set (undeposited w).
      Some p \<notin> fst ` set (map (\<lambda>t. (p_nsTransactionId t, p_txnDetailId t))
                            (getMatchedNotDepositedTransactions sid w))"
    by (fastforce simp add: image_iff)
  then show "createSupplementaryDeposit sid acct w =
        (Failure [Lit (''No payments found in undeposited funds. '' @
                       ''Payments may have already been deposited elsewhere.'')], w)"
    using a by (simp add: createSupplementaryDeposit_def payment_lines_loop_disjoint)
next
  fix m w'
  assume "createSupplementaryDeposit sid acct w = (Failure m, w')"
  then show "w' = w"
    using createSupplementaryDeposit_cases [of sid acct w "Failure m" w'] by auto
next
  obtain r w' where c: "createSupplementaryDeposit sid acct w = (r, w')"
    by (cases "createSupplementaryDeposit sid acct w")
  then show "\<exists>r w'. createSupplementaryDeposit sid acct w = (r, w') \<and>
            ((\<exists>m. r = Failure m) \<or> (\<exists>d n. r = Success d n \<and> 0 < n))"
    using createSupplementaryDeposit_cases [OF c] by auto
qed

lemma example_pending:
  "getMatchedNotDepositedTransactions 1 (example_processed_world\<lparr>undeposited := [2001]\<rparr>) =
     [\<lparr>p_txnDetailId = 2, p_transactionId = Some ''T1'', p_amount = or_zero (number_value 100),
       p_nsTransactionId = Some 1001\<rparr>]"
  by (simp add: getMatchedNotDepositedTransactions_def example_processed_world_def
        example_world_def)

theorem C7_supplementary_failures_witness:
  "getSettlementById 1 (example_processed_world\<lparr>undeposited := [2001]\<rparr>) \<noteq> None \<and>
   getMatchedNotDepositedTransactions 1 (example_processed_world\<lparr>undeposited := [2001]\<rparr>) \<noteq> [] \<and>
   createSupplementaryDeposit 1 ''acct'' (example_processed_world\<lparr>undeposited := [2001]\<rparr>) =
     (Failure [Lit (''No payments found in undeposited funds. '' @
                    ''Payments may have already been deposited elsewhere.'')],
      example_processed_world\<lparr>undeposited := [2001]\<rparr>)"
proof -
  let ?w = "example_processed_world\<lparr>undeposited := [2001]\<rparr>"
  obtain settlement where s: "getSettlementById 1 ?w = Some settlement"
    by (simp add: getSettlementById_def example_processed_world_def example_world_def)
  have p: "getMatchedNotDepositedTransactions 1 ?w \<noteq> []"
    by (subst example_pending) simp
  have d: "\<forall>t \<in> set (getMatchedNotDepositedTransactions 1 ?w).
         \<forall>p \<in> set (undeposited ?w). p_nsTransactionId t \<noteq> Some p"
    by (subst example_pending) simp
  have "createSupplementaryDeposit 1 ''acct'' ?w =
     (Failure [Lit (''No payments found in undeposited funds. '' @
                    ''Payments may have already been deposited elsewhere.'')], ?w)"
    using C7_supplementary_failures [of 1 ?w "''acct''"] s p d by blast
  then show ?thesis
    using s p by simp
qed

section \<open>Settlement source client: the retry loop\<close>

lemmas retry_consts = MISC_MAX_API_RETRIES_def MISC_RETRY_DELAY_MS_def

lemma makeRequest_success:
  assumes "replies (requests tr) = Response statusCode body"
    and "200 \<le> statusCode" and "statusCode < 300" and "json_ok body"
  shows "makeRequest replies json_ok retryCount tr = (Inr body, tr @ [Request])"
  using assms by (subst makeRequest.simps) simp

lemma makeRequest_auth_failure:
  assumes "replies (requests tr) = Response statusCode body"
    and "statusCode = 401 \<or> statusCode = 403"
  shows "makeRequest replies json_ok retryCount tr =
           (Inl (Error [Lit ERRORS_API_AUTH_FAILED, Lit '': '', Lit body]), tr @ [Request])"
  using assms by (subst makeRequest.simps) (auto simp add: Error_def)

lemma makeRequest_other_status:
  assumes "replies (requests tr) = Response statusCode body"
    and "statusCode < 200 \<or> (300 \<le> statusCode \<and> statusCode < 500)"
    and "statusCode \<noteq> 401" and "statusCode \<noteq> 403"
  shows "makeRequest replies json_ok retryCount tr =
           (Inl (Error [Lit ERRORS_API_REQUEST_FAILED, Lit '': HTTP '', NatS statusCode,
                        Lit '' - '', Lit body]), tr @ [Request])"
  using assms by (subst makeRequest.simps) (auto simp add: Error_def)

lemma makeRequest_server_errors:
  assumes "\<forall>k < 4. replies k = Response (code k) (body k) \<and> 500 \<le> code k"
  shows "makeRequest replies json_ok 0 [] =
           (Inl (Error [Lit ERRORS_API_REQUEST_FAILED, Lit '': HTTP '', NatS (code 3),
                        Lit '' - '', Lit (body 3)]),
            [Request, Delay 1000, Request, Delay 2000, Request, Delay 3000, Request])"
proof -
  have r: "replies 0 = Response (code 0) (body 0)" "replies (Suc 0) = Response (code 1) (body 1)"
    "replies 2 = Response (code 2) (body 2)" "replies 3 = Response (code 3) (body 3)"
    and c: "500 \<le> code 0" "500 \<le> code 1" "500 \<le> code 2" "500 \<le> code 3"
    using assms by simp_all
  have l3: "makeRequest replies json_ok 3 [Request, Delay 1000, Request, Delay 2000, Request, Delay 3000] =
      (Inl (Error [Lit ERRORS_API_REQUEST_FAILED, Lit '': HTTP '', NatS (code 3),
                        Lit '' - '', Lit (body 3)]),
       [Request, Delay 1000, Request, Delay 2000, Request, Delay 3000, Request])"
    using r c by (subst makeRequest.simps) (simp add: requests_def retry_consts Error_def numeral_2_eq_2 numeral_3_eq_3)
  have l2: "makeRequest replies json_ok 2 [Request, Delay 1000, Request, Delay 2000] =
      (Inl (Error [Lit ERRORS_API_REQUEST_FAILED, Lit '': HTTP '', NatS (code 3),
                        Lit '' - '', Lit (body 3)]),
       [Request, Delay 1000, Request, Delay 2000, Request, Delay 3000, Request])"
    using r c l3 by (subst makeRequest.simps) (simp add: requests_def retry_consts Error_def numeral_2_eq_2 numeral_3_eq_3)
  have l1: "makeRequest replies json_ok 1 [Request, Delay 1000] =
      (Inl (Error [Lit ERRORS_API_REQUEST_FAILED, Lit '': HTTP '', NatS (code 3),
                        Lit '' - '', Lit (body 3)]),
       [Request, Delay 1000, Request, Delay 2000, Request, Delay 3000, Request])"
    using r c l2 by (subst makeRequest.simps) (simp add: requests_def retry_consts Error_def numeral_2_eq_2 numeral_3_eq_3)
  show ?thesis
    using r c l1 by (subst makeRequest.simps) (simp add: requests_def retry_consts Error_def numeral_2_eq_2 numeral_3_eq_3)
qed

lemma makeRequest_timeouts:
  assumes "\<forall>k < 4. replies k = Raised e" and "e_name e = ''SSS_REQUEST_TIME_EXCEEDED''"
  shows "makeRequest replies json_ok 0 [] = (Inl e, [Request, Request, Request, Request])"
proof -
  have r: "replies 0 = Raised e" "replies (Suc 0) = Raised e" "replies 2 = Raised e"
    "replies 3 = Raised e"
    using assms by simp_all
  have l3: "makeRequest replies json_ok 3 [Request, Request, Request] =
      (Inl e, [Request, Request, Request, Request])"
    using r assms(2) by (subst makeRequest.simps) (simp add: requests_def retry_consts numeral_2_eq_2 numeral_3_eq_3)
  have l2: "makeRequest replies json_ok 2 [Request, Request] =
      (Inl e, [Request, Request, Request, Request])"
    using r assms(2) l3 by (subst makeRequest.simps) (simp add: requests_def retry_consts numeral_2_eq_2 numeral_3_eq_3)
  have l1: "makeRequest replies json_ok 1 [Request] =
      (Inl e, [Request, Request, Request, Request])"
    using r assms(2) l2 by (subst makeRequest.simps) (simp add: requests_def retry_consts numeral_2_eq_2 numeral_3_eq_3)
  show ?thesis
    using r assms(2) l1 by (subst makeRequest.simps) (simp add: requests_def retry_consts numeral_2_eq_2 numeral_3_eq_3)
qed

text \<open>
  C8: the cap of 3 retries does not hold when a server error is followed by request
  timeouts. The retry for a server error is called inside the \<open>try\<close> block, so the timeout
  that the inner calls finally throw is caught by the outer call, which retries again:
  after the status 500 and with every later request timing out, \<open>makeRequest\<close> sends 7
  requests before it throws.
\<close>

theorem C8_retry_cap_exceeded:
  "makeRequest error_then_timeouts (\<lambda>body. True) 0 [] =
     (Inl request_timeout,
      [Request, Delay 1000, Request, Request, Request, Request, Request, Request]) \<and>
   requests (snd (makeRequest error_then_timeouts (\<lambda>body. True) 0 [])) = 7 \<and>
   1 + MISC_MAX_API_RETRIES < requests (snd (makeRequest error_then_timeouts (\<lambda>body. True) 0 []))"
  by (simp add: error_then_timeouts_def request_timeout_def requests_def retry_consts Error_def)

section \<open>Batch coordinator: what a run leaves untouched\<close>

lemma submitFields_txn_frame [simp]:
  "settlements (submitFields_txn i f w) = settlements w"
  "outbox (submitFields_txn i f w) = outbox w"
  by (simp_all add: submitFields_txn_def)

lemma createTransactionDetailRecord_frame:
  "settlements (snd (createTransactionDetailRecord t sid w)) = settlements w"
  "outbox (snd (createTransactionDetailRecord t sid w)) = outbox w"
  by (simp_all add: createTransactionDetailRecord_def Let_def)

lemma loop_frame:
  "matchTransactions_loop L V txns sid m u w = (r, w') \<Longrightarrow>
     settlements w' = settlements w \<and> outbox w' = outbox w"
proof (induction txns arbitrary: m u w)
  case Nil
  then show ?case by auto
next
  case (Cons txn rest)
  obtain i w1 where c: "createTransactionDetailRecord txn sid w = (i, w1)"
    by (cases "createTransactionDetailRecord txn sid w")
  then have f: "settlements w1 = settlements w \<and> outbox w1 = outbox w"
    using createTransactionDetailRecord_frame [of txn sid w] by simp
  show ?case
    using Cons.prems c f
    by (auto simp add: Let_def split: if_splits option.splits dest!: Cons.IH)
qed

lemma lib_matchTransactions_frame:
  "lib_matchTransactions lib txns sid w = (r, w') \<Longrightarrow>
     settlements w' = settlements w \<and> outbox w' = outbox w"
  by (cases lib)
     (auto simp add: lib_matchTransactions_def matchTransactions_def matchTransactions_root_def
        dest: loop_frame)

lemma createBankDeposit_frame:
  "createBankDeposit sd matched acct w = (r, w') \<Longrightarrow>
     settlements w' = settlements w \<and> outbox w' = outbox w"
  using createBankDeposit_cases [of sd matched acct w r w'] by auto

lemma updateSettlementRecord_frame:
  "settlement_ids (updateSettlementRecord sid mc uc ma dep err w) = settlement_ids w"
  "outbox (updateSettlementRecord sid mc uc ma dep err w) = outbox w"
  by (simp_all add: updateSettlementRecord_def submitFields_settlement_def settlement_ids_def
        comp_def)

lemma createSettlementRecord_ids:
  "settlement_ids (snd (createSettlementRecord d w)) = settlement_ids w @ [d_id d]"
  "outbox (snd (createSettlementRecord d w)) = outbox w"
  by (simp_all add: createSettlementRecord_def settlement_ids_def Let_def)

lemma isSettlementProcessed_iff:
  "isSettlementProcessed E w \<longleftrightarrow> E \<in> set (settlement_ids w)"
proof -
  have "take 1 xs = [] \<longleftrightarrow> xs = []" for xs :: "settlement_rec list"
    by (cases xs) simp_all
  then show ?thesis
    by (auto simp add: isSettlementProcessed_def settlement_ids_def Let_def filter_empty_conv)
qed

section \<open>Batch coordinator: at-most-once processing\<close>

lemma processSettlement_skip:
  assumes "st_status settlement \<noteq> SETTLEMENT_STATUS_DONE \<or> isSettlementProcessed (st_id settlement) w"
  shows "processSettlement lib env settlement config results w =
           (Inr None, results\<lparr>settlementsSkipped := settlementsSkipped results + 1\<rparr>, w)"
  using assms by (auto simp add: processSettlement_def)

lemma processSettlement_effect:
  assumes p: "processSettlement lib env settlement config results w = (out, results', w')"
  shows "outbox w' = outbox w \<and>
         (settlement_ids w' = settlement_ids w \<or>
          (st_status settlement = SETTLEMENT_STATUS_DONE \<and>
           \<not> isSettlementProcessed (st_id settlement) w \<and>
           (\<exists>d. getSettlementDetails env config (st_id settlement) = Inr d \<and>
                settlement_ids w' = settlement_ids w @ [d_id d])))"
proof (cases "st_status settlement \<noteq> SETTLEMENT_STATUS_DONE \<or> isSettlementProcessed (st_id settlement) w")
  case True
  then show ?thesis
    using p processSettlement_skip [of settlement w lib env config results] by auto
next
  case False
  then have isdone: "st_status settlement = SETTLEMENT_STATUS_DONE"
    and fresh: "\<not> isSettlementProcessed (st_id settlement) w"
    by simp_all
  show ?thesis
  proof (cases "getSettlementDetails env config (st_id settlement)")
    case (Inl e)
    then show ?thesis
      using p isdone fresh by (simp add: processSettlement_def)
  next
    case (Inr d)
    obtain sid w1 where c: "createSettlementRecord d w = (sid, w1)"
      by (cases "createSettlementRecord d w")
    then have f1: "settlement_ids w1 = settlement_ids w @ [d_id d]" "outbox w1 = outbox w"
      using createSettlementRecord_ids [of d w] by simp_all
    obtain mr w2 where m: "lib_matchTransactions lib (d_transactions d) sid w1 = (mr, w2)"
      by (cases "lib_matchTransactions lib (d_transactions d) sid w1")
    then have f2: "settlement_ids w2 = settlement_ids w1" "outbox w2 = outbox w1"
      using lib_matchTransactions_frame [OF m] by (simp_all add: settlement_ids_def)
    show ?thesis
    proof (cases mr)
      case (Inl e)
      then have "w' = w2"
        using p isdone fresh Inr c m by (simp add: processSettlement_def)
      then show ?thesis
        using f1 f2 isdone fresh Inr by simp
    next
      case mrr: (Inr lists)
      obtain matched unmatched where l: "lists = (matched, unmatched)"
        by (cases lists)
      obtain dr w3 where
        dep: "(if st_CRDR settlement = CRDR_CREDIT \<and> 0 < length matched
               then createBankDeposit d matched (cfg_bankAccount config) w2
               else (Inr None, w2)) = (dr, w3)"
        by (cases "if st_CRDR settlement = CRDR_CREDIT \<and> 0 < length matched
               then createBankDeposit d matched (cfg_bankAccount config) w2
               else (Inr None, w2)")
      then have f3: "settlement_ids w3 = settlement_ids w2" "outbox w3 = outbox w2"
        using createBankDeposit_frame [of d matched "cfg_bankAccount config" w2 dr w3]
        by (auto simp add: settlement_ids_def split: if_splits)
      show ?thesis
      proof (cases dr)
        case (Inl e)
        then have "w' = w3"
          using p isdone fresh Inr c m mrr l dep by (simp add: processSettlement_def)
        then show ?thesis
          using f1 f2 f3 isdone fresh Inr by simp
      next
        case drr: (Inr bankDepositId)
        then have "\<exists>mc uc ma err. w' = updateSettlementRecord sid mc uc ma bankDepositId err w3"
          using p isdone fresh Inr c m mrr l dep
          by (auto simp add: processSettlement_def Let_def)
        then show ?thesis
          using f1 f2 f3 isdone fresh Inr updateSettlementRecord_frame by auto
      qed
    qed
  qed
qed

lemma processSettlement_distinct:
  assumes "api_consistent env"
    and "processSettlement lib env settlement config results w = (out, results', w')"
    and "distinct (settlement_ids w)"
  shows "distinct (settlement_ids w') \<and> outbox w' = outbox w"
proof -
  have "d_id d = st_id settlement"
    if "getSettlementDetails env config (st_id settlement) = Inr d" for d
    using assms(1) that by (simp add: api_consistent_def)
  then show ?thesis
    using processSettlement_effect [OF assms(2)] assms(3)
    by (auto simp add: isSettlementProcessed_iff)
qed

lemma settlements_loop_distinct:
  assumes "api_consistent env"
  shows "settlements_loop lib env config ss k cr results w = (k', cr', results', w') \<Longrightarrow>
         distinct (settlement_ids w) \<Longrightarrow>
         distinct (settlement_ids w') \<and> outbox w' = outbox w"
proof (induction ss arbitrary: k cr results w)
  case Nil
  then show ?case by simp
next
  case (Cons settlement rest)
  show ?case
  proof (cases "remainingUsage env k < 500")
    case True
    then show ?thesis
      using Cons.prems by simp
  next
    case False
    obtain out results1 w1 where
      p: "processSettlement lib env settlement config results w = (out, results1, w1)"
      by (cases "processSettlement lib env settlement config results w")
    then have d1: "distinct (settlement_ids w1)" and o1: "outbox w1 = outbox w"
      using processSettlement_distinct [OF assms p] Cons.prems(2) by simp_all
    have "\<exists>cr1 results2.
        settlements_loop lib env config rest (Suc k) cr1 results2 w1 = (k', cr', results', w')"
      using Cons.prems(1) False p
      by (auto simp add: Let_def split: sum.splits option.splits prod.splits)
    then show ?thesis
      using Cons.IH d1 o1 by metis
  qed
qed




text \<open>One step of the loop over the configurations, as a relation between loop states.\<close>

lemma configurations_loop_step:
  assumes "configurations_loop lib env (config # rest) k emails results w = (emails', results', w')"
    and "\<not> remainingUsage env k < 1000"
  shows "\<exists>k1 results1 w1.
           configurations_loop lib env rest k1
             (if cfg_notificationEmail config \<noteq> [] then set_add (cfg_notificationEmail config) emails
              else emails) results1 w1 = (emails', results', w') \<and>
           (w1 = w \<or>
            (\<exists>ss k0 cr0 results0 cr2 results2.
               settlements_loop lib env config ss k0 cr0 results0 w = (k1, cr2, results2, w1)))"
proof (cases "getSettlements env config")
  case (Inl e)
  let ?emails1 = "if cfg_notificationEmail config \<noteq> [] then set_add (cfg_notificationEmail config) emails
              else emails"
  have "\<exists>results1. configurations_loop lib env rest (Suc k) ?emails1 results1 w =
      (emails', results', w')"
    using assms Inl by (auto simp add: Let_def)
  then show ?thesis by blast
next
  case (Inr ss)
  let ?emails1 = "if cfg_notificationEmail config \<noteq> [] then set_add (cfg_notificationEmail config) emails
              else emails"
  let ?cr1 = "\<lparr>cr_configId = cfg_internalId config, cr_configName = cfg_name config,
               cr_merchantId = cfg_merchantId config, cr_settlementsFound = length ss,
               cr_settlementsProcessed = 0, cr_matched = 0, cr_unmatched = 0, cr_errors = []\<rparr>"
  let ?res1 = "results\<lparr>settlementsFound := settlementsFound results + length ss\<rparr>"
  obtain k2 cr2 results2 w2 where
    sl: "settlements_loop lib env config ss (Suc k) ?cr1 ?res1 w = (k2, cr2, results2, w2)"
    by (cases "settlements_loop lib env config ss (Suc k) ?cr1 ?res1 w") auto
  have "\<exists>results1. configurations_loop lib env rest k2 ?emails1 results1 w2 =
      (emails', results', w')"
    using assms Inr sl by (auto simp add: Let_def)
  then show ?thesis
    using sl by blast
qed


lemma configurations_loop_distinct:
  assumes "api_consistent env"
  shows "configurations_loop lib env cs k emails results w = (emails', results', w') \<Longrightarrow>
         distinct (settlement_ids w) \<Longrightarrow> distinct (settlement_ids w')"
proof (induction cs arbitrary: k emails results w)
  case Nil
  then show ?case by simp
next
  case (Cons config rest)
  show ?case
  proof (cases "remainingUsage env k < 1000")
    case True
    then show ?thesis
      using Cons.prems by auto
  next
    case False
    let ?emails1 = "if cfg_notificationEmail config \<noteq> []
                    then set_add (cfg_notificationEmail config) emails else emails"
    obtain k1 results1 w1 where
      l: "configurations_loop lib env rest k1 ?emails1 results1 w1 = (emails', results', w')"
      and w1: "w1 = w \<or>
            (\<exists>ss k0 cr0 results0 cr2 results2.
               settlements_loop lib env config ss k0 cr0 results0 w = (k1, cr2, results2, w1))"
      using configurations_loop_step [OF Cons.prems(1) False] by blast
    have "distinct (settlement_ids w1)"
      using w1 settlements_loop_distinct [OF assms] Cons.prems(2) by blast
    then show ?thesis
      using Cons.IH [OF l] by simp
  qed
qed

lemma send_all_outbox:
  "send_all addrs results w =
     (case mail_fault w of
        Some e \<Rightarrow> w
      | None \<Rightarrow>
          w\<lparr>outbox := outbox w @
               map (\<lambda>a. \<lparr>em_recipients = a,
                         em_subject = (if 0 < length (errors results) \<or> 0 < totalUnmatched results
                                       then EMAIL_SUBJECT_ERROR else EMAIL_SUBJECT_SUCCESS),
                         em_body = email_body results\<rparr>) addrs\<rparr>)"
proof (induction addrs arbitrary: w)
  case Nil
  then show ?case by (simp split: option.splits)
next
  case (Cons a rest)
  then show ?case
    by (simp add: sendNotificationEmail_def Let_def split: option.splits)
qed

lemma send_all_settlements: "settlements (send_all addrs results w) = settlements w"
  by (simp add: send_all_outbox split: option.splits)

lemma execute_fatal:
  assumes "loadAllConfigurations w = Inl e"
  shows "snd (execute lib env w) = w"
  using assms by (simp add: execute_def loadConfiguration_def Let_def)

lemma execute_normal:
  assumes "loadAllConfigurations w = Inr cs" and "execute lib env w = (results, w')"
  shows "\<exists>addrs results1 w1.
           configurations_loop lib env cs 0 [] (initial_results env) w = (addrs, results1, w1) \<and>
           results = results1\<lparr>endTime := Some (clock_end env)\<rparr> \<and>
           w' = send_all addrs results w1"
  using assms by (auto simp add: execute_def Let_def split: prod.splits)

lemma execute_distinct:
  assumes "api_consistent env" and "distinct (settlement_ids w)"
  shows "distinct (settlement_ids (snd (execute lib env w)))"
proof (cases "loadAllConfigurations w")
  case (Inl e)
  then show ?thesis
    using assms(2) by (simp add: execute_fatal)
next
  case (Inr cs)
  obtain results w' where e: "execute lib env w = (results, w')"
    by (cases "execute lib env w")
  obtain addrs results1 w1 where
    l: "configurations_loop lib env cs 0 [] (initial_results env) w = (addrs, results1, w1)"
    and w': "w' = send_all addrs results w1"
    using execute_normal [OF Inr e] by blast
  have "distinct (settlement_ids w1)"
    using configurations_loop_distinct [OF assms(1) l assms(2)] .
  then show ?thesis
    using e w' by (simp add: settlement_ids_def send_all_settlements)
qed

lemma runs_distinct:
  "\<forall>env \<in> set envs. api_consistent env \<Longrightarrow> distinct (settlement_ids w) \<Longrightarrow>
     distinct (settlement_ids (runs lib envs w))"
proof (induction envs arbitrary: w)
  case Nil
  then show ?case by simp
next
  case (Cons env envs)
  then show ?case
    using execute_distinct [of env w lib] by simp
qed

lemma distinct_map_count:
  "distinct (map f xs) \<longleftrightarrow> (\<forall>y. length (filter (\<lambda>x. f x = y) xs) \<le> 1)"
proof (induction xs)
  case Nil
  then show ?case by simp
next
  case (Cons x xs)
  show ?case
  proof
    assume d: "distinct (map f (x # xs))"
    then have ih: "\<forall>y. length (filter (\<lambda>x. f x = y) xs) \<le> 1"
      using Cons.IH by simp
    have "filter (\<lambda>z. f z = f x) xs = []"
      using d by (fastforce simp add: filter_empty_conv image_iff)
    then show "\<forall>y. length (filter (\<lambda>z. f z = y) (x # xs)) \<le> 1"
      using ih by auto
  next
    assume c: "\<forall>y. length (filter (\<lambda>z. f z = y) (x # xs)) \<le> 1"
    have "length (filter (\<lambda>z. f z = y) xs) \<le> length (filter (\<lambda>z. f z = y) (x # xs))" for y
      by simp
    then have "length (filter (\<lambda>z. f z = y) xs) \<le> 1" for y
      using c le_trans by blast
    then have d: "distinct (map f xs)"
      using Cons.IH by simp
    have "filter (\<lambda>z. f z = f x) xs = []"
      using c [rule_format, of "f x"] by simp
    then have "f x \<notin> f ` set xs"
      by (auto simp add: filter_empty_conv)
    then show "distinct (map f (x # xs))"
      using d by simp
  qed
qed

lemma at_most_once_iff:
  "(\<forall>E. persisted_for E w \<le> 1) \<longleftrightarrow> distinct (settlement_ids w)"
  using distinct_map_count [of sr_settlementId "settlements w"]
  by (simp add: persisted_for_def settlement_ids_def)

text \<open>
  C1 (amended): \<open>processSettlement\<close> adds a settlement record only when the status is Done and
  \<open>isSettlementProcessed\<close> finds no record with the external id, and it adds at most one; a
  settlement skipped for either reason returns null with the skipped counter increased
  by one, the error list and the host state unchanged. Consequently, when the settlement
  source answers a detail request with data of the settlement asked for, any number of
  runs, from a store holding at most one record for every external id, leaves at most
  one record for every external id.
\<close>

theorem C1_at_most_once:
  "(\<forall>out results' w'.
      processSettlement lib env settlement config results w = (out, results', w') \<longrightarrow>
      (settlement_ids w' = settlement_ids w \<or>
       (\<exists>d :: wc_details. settlement_ids w' = settlement_ids w @ [d_id d] \<and>
            st_status settlement = SETTLEMENT_STATUS_DONE \<and>
            \<not> isSettlementProcessed (st_id settlement) w))) \<and>
   (st_status settlement \<noteq> SETTLEMENT_STATUS_DONE \<or> isSettlementProcessed (st_id settlement) w \<longrightarrow>
      processSettlement lib env settlement config results w =
        (Inr None, results\<lparr>settlementsSkipped := settlementsSkipped results + 1\<rparr>, w)) \<and>
   ((\<forall>env \<in> set envs. api_consistent env) \<and> (\<forall>E. persisted_for E w \<le> 1) \<longrightarrow>
      (\<forall>E. persisted_for E (runs lib envs w) \<le> 1))"
proof (intro conjI allI impI)
  fix out results' w'
  assume "processSettlement lib env settlement config results w = (out, results', w')"
  from processSettlement_effect [OF this]
  show "settlement_ids w' = settlement_ids w \<or>
       (\<exists>d :: wc_details. settlement_ids w' = settlement_ids w @ [d_id d] \<and>
            st_status settlement = SETTLEMENT_STATUS_DONE \<and>
            \<not> isSettlementProcessed (st_id settlement) w)"
    by metis
next
  assume "st_status settlement \<noteq> SETTLEMENT_STATUS_DONE \<or> isSettlementProcessed (st_id settlement) w"
  then show "processSettlement lib env settlement config results w =
        (Inr None, results\<lparr>settlementsSkipped := settlementsSkipped results + 1\<rparr>, w)"
    by (rule processSettlement_skip)
next
  fix E
  assume "(\<forall>env \<in> set envs. api_consistent env) \<and> (\<forall>E. persisted_for E w \<le> 1)"
  then have "\<forall>env \<in> set envs. api_consistent env" and "distinct (settlement_ids w)"
    using at_most_once_iff [of w] by blast+
  then have "distinct (settlement_ids (runs lib envs w))"
    by (rule runs_distinct)
  then show "persisted_for E (runs lib envs w) \<le> 1"
    using at_most_once_iff [of "runs lib envs w"] by blast
qed

lemma api_consistent_example: "api_consistent example_env"
  by (simp add: api_consistent_def example_env_def example_details_def)

theorem C1_at_most_once_witness:
  "api_consistent example_env \<and>
   persisted_for ''S1'' example_start_world \<le> 1 \<and>
   persisted_for ''S1'' (runs FileCabinet [example_env, example_env] example_start_world) \<le> 1"
proof -
  have h1: "\<forall>env \<in> set [example_env, example_env]. api_consistent env"
    using api_consistent_example by simp
  have h2: "\<forall>E. persisted_for E example_start_world \<le> 1"
    by (simp add: persisted_for_def example_start_world_def example_world_def)
  have "\<forall>E. persisted_for E (runs FileCabinet [example_env, example_env] example_start_world) \<le> 1"
    using C1_at_most_once [of FileCabinet _ _ _ _ example_start_world "[example_env, example_env]"]
      h1 h2 by blast
  then show ?thesis
    using api_consistent_example h2 by blast
qed

text \<open>
  C1, as stated, fails when the settlement source answers a detail request with data that
  carry another id: the check uses the id of the listed settlement, the record is saved
  with the id of the detail data, and one run stores two records for the id X.
\<close>

theorem C1_relabelled_details_stored_twice:
  "\<not> api_consistent example_relabelling_env \<and>
   persisted_for ''X'' example_single_world = 0 \<and>
   settlement_ids (runs FileCabinet [example_relabelling_env] example_single_world) = [''X'', ''X''] \<and>
   persisted_for ''X'' (runs FileCabinet [example_relabelling_env] example_single_world) = 2"
proof -
  have a: "\<not> api_consistent example_relabelling_env"
  proof
    assume c: "api_consistent example_relabelling_env"
    have "getSettlementDetails example_relabelling_env (example_config 11 ''M1'') ''S1'' =
        Inr (example_details\<lparr>d_id := ''X'', d_transactions := []\<rparr>)"
      by (simp add: example_relabelling_env_def example_env_def)
    then have "d_id (example_details\<lparr>d_id := ''X'', d_transactions := []\<rparr>) = ''S1''"
      using c unfolding api_consistent_def by blast
    then show False
      by simp
  qed
  have s: "settlements (runs FileCabinet [example_relabelling_env] example_single_world) =
      map (\<lambda>i. \<lparr>sr_internalId = i, sr_settlementId = ''X'', sr_settlementDate = ''2024-01-05'',
                 sr_amount = number_value 80, sr_currency = ''NZD'', sr_status = ''Done'',
                 sr_crdr = ''CR'', sr_referenceNumber = ''R1'', sr_merchantId = ''M1'',
                 sr_customerId = [], sr_matchedCount = 0, sr_unmatchedCount = 0,
                 sr_matchedAmount = Fin 0, sr_processed = True, sr_bankDeposit = None,
                 sr_errorMessage = []\<rparr>) [1, 2]"
    by (simp add: execute_def loadAllConfigurations_def example_single_world_def
          example_world_def example_config_def example_relabelling_env_def example_env_def
          example_details_def initial_results_def set_add_def sendNotificationEmail_def
          processSettlement_def isSettlementProcessed_def createSettlementRecord_def
          lib_matchTransactions_def matchTransactions_def updateSettlementRecord_def
          submitFields_settlement_def or_default_def SETTLEMENT_STATUS_DONE_def CRDR_CREDIT_def
          Let_def)
  have z: "persisted_for ''X'' example_single_world = 0"
    by (simp add: persisted_for_def example_single_world_def example_world_def)
  have i: "settlement_ids (runs FileCabinet [example_relabelling_env] example_single_world) =
      [''X'', ''X'']"
    by (simp only: settlement_ids_def s) simp
  have n: "persisted_for ''X'' (runs FileCabinet [example_relabelling_env] example_single_world) = 2"
    by (simp only: persisted_for_def s) simp
  show ?thesis
    using a z i n by blast
qed

section \<open>Batch coordinator: the summary email\<close>




















end
